theory Spec2Isabelle
  imports Main "HOL-Library.Word"
begin

unbundle bit_operations_syntax

section \<open>Data model\<close>

text \<open>
  A shallow embedding of \<^verbatim>\<open>src/logfile.cc\<close>: the incremental indexing engine of a
  log file (\<^verbatim>\<open>logfile::process_prefix\<close>, \<^verbatim>\<open>logfile::rebuild_index\<close>) and the
  read-back operations (\<^verbatim>\<open>logfile::line_length\<close>, \<^verbatim>\<open>logfile::read_full_message\<close>,
  \<^verbatim>\<open>logfile::exists\<close>).

  \<^verbatim>\<open>time_t\<close> and \<^verbatim>\<open>off_t\<close> are signed 64-bit integers that the code only copies,
  compares, adds and subtracts on file offsets; they are modelled as \<open>int\<close>. Where a
  difference of offsets is stored in a \<^verbatim>\<open>size_t\<close> the conversion is written out
  (\<open>to_size_t\<close>).
\<close>

type_synonym time_t = int
type_synonym off_t = int

datatype fault =
    Logfile_error         \<comment> \<open>\<^verbatim>\<open>throw error(filename, errno)\<close>\<close>
  | Line_buffer_error     \<comment> \<open>a \<^verbatim>\<open>line_buffer::error\<close> thrown by the line source\<close>
  | Require_failed        \<comment> \<open>a \<^verbatim>\<open>require(...)\<close> contract check that does not hold\<close>
  | Undefined_behaviour   \<comment> \<open>an access outside the index vector\<close>

text \<open>
  Modelled from the spec: \<^verbatim>\<open>log_level_t\<close> is declared in a header that is not part of
  the source under study. The spec's data model says that the level-and-flags byte
  includes a "continued" flag; the level is a byte, the flag one of its bits.
\<close>

type_synonym log_level_t = "8 word"

definition LEVEL_UNKNOWN :: log_level_t where
  "LEVEL_UNKNOWN = 0"

definition LEVEL_CONTINUED :: log_level_t where
  "LEVEL_CONTINUED = 0x80"

text \<open>
  Modelled from the spec: the index entry \<^verbatim>\<open>logline\<close> (declared in a header that is
  not part of the source under study), with the fields of the spec's logical-line
  record: byte offset of line start, sub-offset, timestamp (seconds and sub-second
  component), level-and-flags, module id, operation id, valid-UTF-8 flag, time-skew
  flag.
\<close>

record logline =
  ll_offset :: off_t
  ll_sub_offset :: nat
  ll_time :: time_t
  ll_millis :: int
  ll_level :: log_level_t
  ll_module_id :: "8 word"
  ll_opid :: "8 word"
  ll_valid_utf :: bool
  ll_time_skew :: bool

text \<open>
  Modelled from the spec: the constructor
  \<^verbatim>\<open>logline(offset, time, millis, level, module, opid)\<close> used by
  \<^verbatim>\<open>lf_index.emplace_back\<close>; the entry starts at sub-offset 0 with no skew.
\<close>

definition mk_logline ::
  "off_t \<Rightarrow> time_t \<Rightarrow> int \<Rightarrow> log_level_t \<Rightarrow> 8 word \<Rightarrow> 8 word \<Rightarrow> logline" where
  "mk_logline off t m l md op =
     \<lparr>ll_offset = off, ll_sub_offset = 0, ll_time = t, ll_millis = m, ll_level = l,
      ll_module_id = md, ll_opid = op, ll_valid_utf = True, ll_time_skew = False\<rparr>"

text \<open>
  Modelled from the spec: \<^verbatim>\<open>logline::operator<\<close>, the ordering "\<open>curr\<close>'s time precedes
  \<open>prev\<close>'s time" on timestamps (seconds, then the sub-second component).
\<close>

definition logline_lt :: "logline \<Rightarrow> logline \<Rightarrow> bool" where
  "logline_lt a b \<longleftrightarrow>
     ll_time a < ll_time b \<or> (ll_time a = ll_time b \<and> ll_millis a < ll_millis b)"

text \<open>Modelled from the spec: \<^verbatim>\<open>logline::is_continued\<close>, the "continued" flag.\<close>

definition is_continued :: "logline \<Rightarrow> bool" where
  "is_continued l \<longleftrightarrow> ll_level l AND LEVEL_CONTINUED \<noteq> 0"

text \<open>
  Modelled from the spec: the line source's byte range \<^verbatim>\<open>file_range\<close> and line
  descriptor \<^verbatim>\<open>line_info\<close> (byte range, partial-tail flag, UTF-8-validity flag).
\<close>

record file_range =
  fr_offset :: off_t
  fr_size :: int

definition next_offset :: "file_range \<Rightarrow> off_t" where
  "next_offset fr = fr_offset fr + fr_size fr"

definition fr_empty :: "file_range \<Rightarrow> bool" where
  "fr_empty fr \<longleftrightarrow> fr_size fr = 0"

record line_info =
  li_file_range :: file_range
  li_partial :: bool
  li_valid_utf :: bool

record stat =
  st_is_reg :: bool                 \<comment> \<open>\<^verbatim>\<open>S_ISREG(st_mode)\<close>\<close>
  st_dev :: nat
  st_ino :: nat
  st_size :: off_t
  st_mtime :: time_t

text \<open>
  The outcome of a call into the line source: \<^verbatim>\<open>Result<T, std::string>\<close> is \<open>Ok\<close> or
  \<open>Err\<close>; \<open>Throws\<close> is a \<^verbatim>\<open>line_buffer::error\<close> exception (the read-back operations
  have \<^verbatim>\<open>catch\<close> blocks for it).
\<close>

datatype 'a io_result = Ok 'a | Err string | Throws

text \<open>
  The line source \<^verbatim>\<open>lf_line_buffer\<close> is a collaborator (spec, section 6). Its
  answers during one call are taken as given: the record holds what each of its
  operations returns for each argument. A change of the file between two passes is a
  change of this field by the caller.
\<close>

record line_buffer =
  lb_fstat :: "stat option"                               \<comment> \<open>\<^verbatim>\<open>fstat(get_fd(), &st)\<close>, \<open>None\<close> for -1\<close>
  lb_get_file_time :: time_t
  lb_is_data_available :: "off_t \<Rightarrow> off_t \<Rightarrow> bool"
  lb_read_range :: "file_range \<Rightarrow> string io_result"
  lb_load_next_line :: "file_range \<Rightarrow> line_info io_result"
  lb_get_available :: file_range
  lb_get_read_offset :: "off_t \<Rightarrow> off_t"

datatype scan_result_t = SCAN_MATCH | SCAN_NO_MATCH | SCAN_INCOMPLETE

text \<open>
  A format is a collaborator too (spec, section 6). \<open>scan\<close> is given the scanner's
  private state, its base time, the index, the line descriptor and the line's bytes;
  it returns its verdict, the index as it leaves it (the scanner receives the vector
  by reference and may append several rows) and its new private state.
\<close>

record 's log_format =
  lf_time_ordered :: bool
  lf_base_time :: time_t
  fmt_state :: 's
  match_name :: "string \<Rightarrow> bool"
  clear :: "'s \<Rightarrow> 's"
  scan :: "'s \<Rightarrow> time_t \<Rightarrow> logline list \<Rightarrow> line_info \<Rightarrow> string
            \<Rightarrow> scan_result_t \<times> logline list \<times> 's"
  get_subline :: "logline \<Rightarrow> string \<Rightarrow> bool \<Rightarrow> string"

definition fmt_scan ::
  "'s log_format \<Rightarrow> logline list \<Rightarrow> line_info \<Rightarrow> string
     \<Rightarrow> scan_result_t \<times> logline list \<times> 's log_format" where
  "fmt_scan f idx li sbr =
     (case scan f (fmt_state f) (lf_base_time f) idx li sbr of
        (found, idx', s') \<Rightarrow> (found, idx', f\<lparr>fmt_state := s'\<rparr>))"

definition fmt_clear :: "'s log_format \<Rightarrow> 's log_format" where
  "fmt_clear f = f\<lparr>fmt_state := clear f (fmt_state f)\<rparr>"

text \<open>
  Modelled from the spec: \<^verbatim>\<open>log_format::specialized\<close>, "produce a file-specialized
  instance once matched (the file's permanently bound copy)".
\<close>

definition specialized :: "'s log_format \<Rightarrow> 's log_format" where
  "specialized f = f"

text \<open>The calls the engine makes on its observers, in order.\<close>

datatype event =
    Logline_restart nat
  | Logline_new_line nat string
  | Logline_eof
  | Logfile_indexing off_t off_t

datatype text_format_t = TF_UNKNOWN | TF_DETECTED nat

record logfile_open_options =
  loo_fd :: int                     \<comment> \<open>-1 when the file is to be opened by path\<close>
  loo_detect_format :: bool

record 's logfile =
  lf_filename :: string
  lf_valid_filename :: bool
  lf_stat :: stat
  lf_content_id :: string
  lf_options :: logfile_open_options
  lf_line_buffer :: line_buffer
  lf_format :: "'s log_format option"
  lf_index :: "logline list"
  lf_index_size :: off_t
  lf_index_time :: time_t
  lf_partial_line :: bool
  lf_longest_line :: nat
  lf_next_line_cache :: "(off_t \<times> nat) option"
  lf_out_of_time_order_count :: nat
  lf_sort_needed :: bool
  lf_text_format :: text_format_t
  la_polls :: nat
  la_reads :: nat
  lf_is_closed :: bool
  lf_logline_observer :: bool       \<comment> \<open>a line observer is registered (the pointer is not null)\<close>
  lf_logfile_observer :: bool       \<comment> \<open>a file-progress observer is registered\<close>
  observed :: "event list"          \<comment> \<open>the calls made on the observers so far\<close>

text \<open>Library functions the engine calls, taken as given.\<close>

record externals =
  hash_string :: "string \<Rightarrow> string"
  detect_text_format :: "string \<Rightarrow> text_format_t"

definition MAX_UNRECOGNIZED_LINES :: nat where
  "MAX_UNRECOGNIZED_LINES = 1000"

section \<open>Format detection and time-order classification\<close>

text \<open>\<^verbatim>\<open>logfile::set_format_base_time\<close>.\<close>

definition set_format_base_time :: "'s logfile \<Rightarrow> 's log_format \<Rightarrow> 's log_format" where
  "set_format_base_time lf f =
     (let file_time = lb_get_file_time (lf_line_buffer lf);
          file_time = (if file_time = 0 then st_mtime (lf_stat lf) else file_time)
      in f\<lparr>lf_base_time := file_time\<rparr>)"

text \<open>
  The backfill loop of \<^verbatim>\<open>process_prefix\<close>:
  \<^verbatim>\<open>for (lpc = 0; lpc < lf_index.size() - 1; lpc++)\<close>, with \<^verbatim>\<open>last_line\<close> a reference to
  the last element.
\<close>

definition backfill :: "logline list \<Rightarrow> logline list" where
  "backfill idx =
     fold (\<lambda>lpc ix. ix[lpc := (ix ! lpc)\<lparr>ll_time := ll_time (ix ! (length ix - 1)),
                                         ll_millis := ll_millis (ix ! (length ix - 1))\<rparr>])
          [0..<length idx - 1] idx"

text \<open>
  The skew loop: \<^verbatim>\<open>for (lpc = prescan_size; lpc < lf_index.size(); lpc++)\<close>, with
  \<^verbatim>\<open>second_to_last\<close> a reference to element \<^verbatim>\<open>prescan_size - 1\<close>.
\<close>

definition skew_loop :: "nat \<Rightarrow> logline list \<Rightarrow> logline list" where
  "skew_loop prescan_size idx =
     fold (\<lambda>lpc ix. ix[lpc := (ix ! lpc)\<lparr>ll_time_skew := True,
                                         ll_time := ll_time (ix ! (prescan_size - 1)),
                                         ll_millis := ll_millis (ix ! (prescan_size - 1))\<rparr>])
          [prescan_size..<length idx] idx"

text \<open>\<^verbatim>\<open>lf_index.back().set_valid_utf(v)\<close>, called on a non-empty index only.\<close>

definition set_back_valid_utf :: "bool \<Rightarrow> logline list \<Rightarrow> logline list" where
  "set_back_valid_utf v idx = idx[length idx - 1 := (idx ! (length idx - 1))\<lparr>ll_valid_utf := v\<rparr>]"

text \<open>
  The loop over the root formats (lines 162-200). It stops at the first format whose
  scan reports a match; a format whose name rule rejects the file name is skipped. The
  root formats are global objects: the ones tried come back cleared, with the base time
  set and in the state their scan left. On a match with an empty index the source binds
  a reference to element \<^verbatim>\<open>size() - 1\<close> of an empty vector.
\<close>

fun try_formats ::
  "externals \<Rightarrow> 's logfile \<Rightarrow> string \<Rightarrow> line_info \<Rightarrow> 's log_format list \<Rightarrow> scan_result_t
     \<Rightarrow> fault + (scan_result_t \<times> 's logfile \<times> 's log_format list)" where
  "try_formats ex lf sbr li [] found = Inr (found, lf, [])"
| "try_formats ex lf sbr li (f # fs) found =
     (if found = SCAN_MATCH then Inr (found, lf, f # fs)
      else if \<not> match_name f (lf_filename lf) then
        (case try_formats ex lf sbr li fs found of
           Inl e \<Rightarrow> Inl e
         | Inr (found', lf', fs') \<Rightarrow> Inr (found', lf', f # fs'))
      else
        (case fmt_scan (set_format_base_time lf (fmt_clear f)) (lf_index lf) li sbr of
           (found', idx', f') \<Rightarrow>
             if found' = SCAN_MATCH then
               (if idx' = [] then Inl Undefined_behaviour
                else
                  let lf1 = lf\<lparr>lf_index := idx'\<rparr>;
                      lf2 = lf1\<lparr>lf_format := Some (set_format_base_time lf1 (specialized f'))\<rparr>;
                      lf3 = lf2\<lparr>lf_content_id := hash_string ex sbr\<rparr>
                  in Inr (SCAN_MATCH, lf3\<lparr>lf_index := backfill (lf_index lf3)\<rparr>, f' # fs))
             else
               (case try_formats ex (lf\<lparr>lf_index := idx'\<rparr>) sbr li fs found' of
                  Inl e \<Rightarrow> Inl e
                | Inr (found'', lf', fs') \<Rightarrow> Inr (found'', lf', f' # fs'))))"

text \<open>
  Lines 140-201 of \<^verbatim>\<open>process_prefix\<close>: the scan itself. The result carries \<^verbatim>\<open>found\<close>
  and \<^verbatim>\<open>prescan_time\<close>.
\<close>

definition pp_scan ::
  "externals \<Rightarrow> 's log_format list \<Rightarrow> 's logfile \<Rightarrow> string \<Rightarrow> line_info
     \<Rightarrow> fault + (scan_result_t \<times> time_t \<times> 's logfile \<times> 's log_format list)" where
  "pp_scan ex roots lf sbr li =
     (case lf_format lf of
        Some fmt \<Rightarrow>
          (let prescan_time = (if lf_index lf \<noteq> [] then ll_time (lf_index lf ! 0) else 0)
           in case fmt_scan fmt (lf_index lf) li sbr of
                (found, idx', fmt') \<Rightarrow>
                  Inr (found, prescan_time, lf\<lparr>lf_format := Some fmt', lf_index := idx'\<rparr>, roots))
      | None \<Rightarrow>
          if loo_detect_format (lf_options lf) \<and> length (lf_index lf) < MAX_UNRECOGNIZED_LINES then
            (case try_formats ex lf sbr li roots SCAN_NO_MATCH of
               Inl e \<Rightarrow> Inl e
             | Inr (found, lf', roots') \<Rightarrow> Inr (found, 0, lf', roots'))
          else Inr (SCAN_NO_MATCH, 0, lf, roots))"

text \<open>Lines 204-232: \<^verbatim>\<open>case log_format::SCAN_MATCH\<close>.\<close>

definition pp_match :: "nat \<Rightarrow> time_t \<Rightarrow> line_info \<Rightarrow> 's logfile \<Rightarrow> fault + (bool \<times> 's logfile)" where
  "pp_match prescan_size prescan_time li lf =
     (let lf1 = (if lf_index lf \<noteq> []
                 then lf\<lparr>lf_index := set_back_valid_utf (li_valid_utf li) (lf_index lf)\<rparr>
                 else lf);
          retval = (lf_index lf1 \<noteq> [] \<and> prescan_time \<noteq> ll_time (lf_index lf1 ! 0))
      in if prescan_size > 0 \<and> prescan_size < length (lf_index lf1) then
           if logline_lt (lf_index lf1 ! prescan_size) (lf_index lf1 ! (prescan_size - 1)) then
             (case lf_format lf1 of
                None \<Rightarrow> Inl Undefined_behaviour
              | Some fmt \<Rightarrow>
                  if lf_time_ordered fmt then
                    Inr (retval,
                         lf1\<lparr>lf_out_of_time_order_count := lf_out_of_time_order_count lf1 + 1,
                             lf_index := skew_loop prescan_size (lf_index lf1)\<rparr>)
                  else Inr (True, lf1))
           else Inr (retval, lf1)
         else Inr (retval, lf1))"

text \<open>Lines 233-263: \<^verbatim>\<open>case log_format::SCAN_NO_MATCH\<close>.\<close>

definition pp_no_match :: "line_info \<Rightarrow> 's logfile \<Rightarrow> 's logfile" where
  "pp_no_match li lf =
     (case (if lf_index lf \<noteq> [] then
              (let ll = last (lf_index lf)
               in (ll_time ll, ll_millis ll,
                   (if lf_format lf \<noteq> None then ll_level ll OR LEVEL_CONTINUED
                    else LEVEL_UNKNOWN),
                   ll_module_id ll, ll_opid ll))
            else (lf_index_time lf, 0, LEVEL_UNKNOWN, 0, 0)) of
        (last_time, last_millis, last_level, last_mod, last_opid) \<Rightarrow>
          lf\<lparr>lf_index := lf_index lf @
               [(mk_logline (fr_offset (li_file_range li)) last_time last_millis last_level
                   last_mod last_opid)\<lparr>ll_valid_utf := li_valid_utf li\<rparr>]\<rparr>)"

text \<open>
  \<^verbatim>\<open>logfile::process_prefix\<close>: the returned flag says that a resort is required; the
  file and the root formats come back as the call leaves them.
\<close>

definition process_prefix ::
  "externals \<Rightarrow> 's log_format list \<Rightarrow> 's logfile \<Rightarrow> string \<Rightarrow> line_info
     \<Rightarrow> fault + (bool \<times> 's logfile \<times> 's log_format list)" where
  "process_prefix ex roots lf sbr li =
     (let prescan_size = length (lf_index lf)
      in case pp_scan ex roots lf sbr li of
           Inl e \<Rightarrow> Inl e
         | Inr (found, prescan_time, lf1, roots1) \<Rightarrow>
             (case found of
                SCAN_MATCH \<Rightarrow>
                  (case pp_match prescan_size prescan_time li lf1 of
                     Inl e \<Rightarrow> Inl e
                   | Inr (retval, lf2) \<Rightarrow> Inr (retval, lf2, roots1))
              | SCAN_NO_MATCH \<Rightarrow> Inr (False, pp_no_match li lf1, roots1)
              | SCAN_INCOMPLETE \<Rightarrow> Inr (False, lf1, roots1)))"

section \<open>Line access\<close>

text \<open>Conversions between \<^verbatim>\<open>off_t\<close>/\<^verbatim>\<open>ssize_t\<close> (signed) and \<^verbatim>\<open>size_t\<close> (unsigned), 64 bits.\<close>

definition to_size_t :: "int \<Rightarrow> nat" where
  "to_size_t x = nat (x mod 2 ^ 64)"

definition to_ssize_t :: "nat \<Rightarrow> int" where
  "to_ssize_t n = (let m = int n mod 2 ^ 64 in if m < 2 ^ 63 then m else m - 2 ^ 64)"

text \<open>
  The loop of \<^verbatim>\<open>line_length\<close>:
  \<^verbatim>\<open>do { ++next_line; } while (next_line != end() && (ll->get_offset() == next_line->get_offset() || (include_continues && next_line->is_continued())));\<close>
  The function is entered after the first increment.
\<close>

function next_line_from :: "logline list \<Rightarrow> off_t \<Rightarrow> bool \<Rightarrow> nat \<Rightarrow> nat" where
  "next_line_from idx off include_continues n =
     (if n < length idx \<and>
         (off = ll_offset (idx ! n) \<or> (include_continues \<and> is_continued (idx ! n)))
      then next_line_from idx off include_continues (Suc n)
      else n)"
  by pat_completeness auto
termination
  by (relation "measure (\<lambda>(idx, off, inc, n). length idx - n)") auto

declare next_line_from.simps [simp del]

text \<open>
  \<^verbatim>\<open>logfile::line_length\<close>. The iterator \<^verbatim>\<open>ll\<close> is a position in the index; the source
  dereferences it, so a position outside the index is undefined behaviour. The call
  returns the length and the file state (the length cache is a mutable member).
\<close>

definition line_length_uncached :: "'s logfile \<Rightarrow> nat \<Rightarrow> bool \<Rightarrow> nat \<times> 's logfile" where
  "line_length_uncached lf ll include_continues =
     (let off = ll_offset (lf_index lf ! ll);
          next_line = next_line_from (lf_index lf) off include_continues (Suc ll)
      in if next_line = length (lf_index lf) then
           (let retval = to_size_t (lf_index_size lf - off)
            in (if retval > 0 \<and> \<not> lf_partial_line lf then retval - 1 else retval, lf))
         else
           (let retval = to_size_t (ll_offset (lf_index lf ! next_line) - off - 1)
            in (retval,
                if \<not> include_continues then lf\<lparr>lf_next_line_cache := Some (off, retval)\<rparr>
                else lf)))"

definition line_length :: "'s logfile \<Rightarrow> nat \<Rightarrow> bool \<Rightarrow> fault + (nat \<times> 's logfile)" where
  "line_length lf ll include_continues =
     (if \<not> ll < length (lf_index lf) then Inl Undefined_behaviour
      else
        case (if \<not> include_continues then lf_next_line_cache lf else None) of
          Some (k, v) \<Rightarrow>
            if ll_offset (lf_index lf ! ll) = k then Inr (v, lf)
            else Inr (line_length_uncached lf ll include_continues)
        | None \<Rightarrow> Inr (line_length_uncached lf ll include_continues))"

text \<open>
  \<^verbatim>\<open>logfile::read_full_message\<close>: the caller's buffer \<^verbatim>\<open>msg_out\<close> goes in and comes back.
  Modelled from the spec: the default argument of \<^verbatim>\<open>line_length(ll)\<close> is in the header;
  the spec says the length is computed "including all continuation rows".
\<close>

definition read_full_message ::
  "'s logfile \<Rightarrow> nat \<Rightarrow> string \<Rightarrow> fault + (string \<times> 's logfile)" where
  "read_full_message lf ll msg_out =
     (if \<not> ll < length (lf_index lf) then Inl Undefined_behaviour
      else if ll_sub_offset (lf_index lf ! ll) \<noteq> 0 then Inl Require_failed
      else
        case line_length lf ll True of
          Inl e \<Rightarrow> Inl e
        | Inr (line_len, lf1) \<Rightarrow>
            (case lb_read_range (lf_line_buffer lf1)
                    \<lparr>fr_offset = ll_offset (lf_index lf1 ! ll), fr_size = to_ssize_t line_len\<rparr> of
               Throws \<Rightarrow> Inr (msg_out, lf1)
             | Err msg \<Rightarrow> Inr (msg_out, lf1)
             | Ok sbr \<Rightarrow>
                 (case lf_format lf1 of
                    None \<Rightarrow> Inr (sbr, lf1)
                  | Some fmt \<Rightarrow> Inr (get_subline fmt (lf_index lf1 ! ll) sbr True, lf1))))"

section \<open>Identity and lifecycle\<close>

text \<open>
  Modelled from the spec: \<^verbatim>\<open>logfile::close\<close> is defined in the header; the spec says
  the engine "releases its resources and transitions to closed".
\<close>

definition close :: "'s logfile \<Rightarrow> 's logfile" where
  "close lf = lf\<lparr>lf_is_closed := True\<rparr>"

text \<open>\<^verbatim>\<open>logfile::exists\<close>; the argument is what \<^verbatim>\<open>::stat(path)\<close> returns now.\<close>

definition logfile_exists :: "(string \<Rightarrow> stat option) \<Rightarrow> 's logfile \<Rightarrow> bool" where
  "logfile_exists fs_stat lf =
     (if \<not> lf_valid_filename lf then True
      else
        case fs_stat (lf_filename lf) of
          None \<Rightarrow> False
        | Some st \<Rightarrow>
            st_dev (lf_stat lf) = st_dev st \<and> st_ino (lf_stat lf) = st_ino st \<and>
            st_size (lf_stat lf) \<le> st_size st)"

text \<open>
  The constructor \<^verbatim>\<open>logfile::logfile(filename, loo)\<close>. The file system is given by what
  \<^verbatim>\<open>realpath\<close>, \<^verbatim>\<open>stat\<close>, \<^verbatim>\<open>open\<close> and \<^verbatim>\<open>fstat\<close> answer, and by the line source that
  \<^verbatim>\<open>set_fd\<close> binds to a descriptor. Modelled from the spec: the initial values of the
  members that the header initialises (empty index, extent 0, no format, no observers).
\<close>

record filesystem =
  fs_realpath :: "string \<Rightarrow> string option"
  fs_stat :: "string \<Rightarrow> stat option"
  fs_open :: "string \<Rightarrow> int option"
  fs_fstat :: "int \<Rightarrow> stat option"
  fs_line_buffer :: "int \<Rightarrow> line_buffer"

definition zero_stat :: stat where
  "zero_stat = \<lparr>st_is_reg = False, st_dev = 0, st_ino = 0, st_size = 0, st_mtime = 0\<rparr>"

definition new_logfile ::
  "externals \<Rightarrow> string \<Rightarrow> bool \<Rightarrow> stat \<Rightarrow> logfile_open_options \<Rightarrow> line_buffer \<Rightarrow> 's logfile" where
  "new_logfile ex filename valid st loo lb =
     \<lparr>lf_filename = filename, lf_valid_filename = valid, lf_stat = st,
      lf_content_id = hash_string ex filename, lf_options = loo, lf_line_buffer = lb,
      lf_format = None, lf_index = [], lf_index_size = 0, lf_index_time = 0,
      lf_partial_line = False, lf_longest_line = 0, lf_next_line_cache = None,
      lf_out_of_time_order_count = 0, lf_sort_needed = False, lf_text_format = TF_UNKNOWN,
      la_polls = 0, la_reads = 0, lf_is_closed = False, lf_logline_observer = False,
      lf_logfile_observer = False, observed = []\<rparr>"

definition logfile_ctor ::
  "externals \<Rightarrow> filesystem \<Rightarrow> string \<Rightarrow> logfile_open_options \<Rightarrow> fault + 's logfile" where
  "logfile_ctor ex fs filename loo =
     (if filename = [] then Inl Require_failed
      else if loo_fd loo = - 1 then
        (case fs_realpath fs filename of
           None \<Rightarrow> Inl Logfile_error
         | Some resolved_path \<Rightarrow>
             (case fs_stat fs resolved_path of
                None \<Rightarrow> Inl Logfile_error
              | Some st \<Rightarrow>
                  if \<not> st_is_reg st then Inl Logfile_error
                  else
                    (case fs_open fs resolved_path of
                       None \<Rightarrow> Inl Logfile_error
                     | Some fd \<Rightarrow>
                         Inr (new_logfile ex filename True st (loo\<lparr>loo_fd := fd\<rparr>)
                                (fs_line_buffer fs fd)))))
      else
        Inr (new_logfile ex filename False
               (case fs_fstat fs (loo_fd loo) of None \<Rightarrow> zero_stat | Some st \<Rightarrow> st)
               loo (fs_line_buffer fs (loo_fd loo))))"

section \<open>The rebuild pass\<close>

datatype rebuild_result_t = RR_NO_NEW_LINES | RR_NEW_LINES | RR_NEW_ORDER | RR_INVALID

text \<open>
  A block of \<^verbatim>\<open>rebuild_index\<close> either leaves the function with a \<^verbatim>\<open>return\<close> or hands
  its local variables to the next block.
\<close>

datatype ('r, 'a) flow = Returned 'r | Running 'a

text \<open>
  Modelled from the spec: \<^verbatim>\<open>is_line_ending\<close> (a string utility outside the source
  under study), "strip trailing line-terminator bytes": line feed and carriage return.
\<close>

definition is_line_ending :: "char \<Rightarrow> bool" where
  "is_line_ending c \<longleftrightarrow> c = CHR 0x0A \<or> c = CHR 0x0D"

definition rtrim :: "(char \<Rightarrow> bool) \<Rightarrow> string \<Rightarrow> string" where
  "rtrim p s = rev (dropWhile p (rev s))"

text \<open>
  Lines 315-320: the rollback loop and the \<^verbatim>\<open>pop_back\<close> after it.
  \<^verbatim>\<open>lf_index.back()\<close> on a vector that has run empty is undefined behaviour.
\<close>

function drop_last_line :: "logline list \<Rightarrow> nat \<Rightarrow> fault + (logline list \<times> nat)" where
  "drop_last_line idx rollback_size =
     (if idx = [] then Inl Undefined_behaviour
      else if ll_sub_offset (last idx) \<noteq> 0 then drop_last_line (butlast idx) (rollback_size + 1)
      else Inr (butlast idx, rollback_size + 1))"
  by pat_completeness auto
termination
  by (relation "measure (\<lambda>(idx, n). length idx)") auto

declare drop_last_line.simps [simp del]

definition notify_logline :: "event list \<Rightarrow> 's logfile \<Rightarrow> 's logfile" where
  "notify_logline evs lf =
     (if lf_logline_observer lf then lf\<lparr>observed := observed lf @ evs\<rparr> else lf)"

definition notify_logfile :: "event \<Rightarrow> 's logfile \<Rightarrow> 's logfile" where
  "notify_logfile ev lf =
     (if lf_logfile_observer lf then lf\<lparr>observed := observed lf @ [ev]\<rparr> else lf)"

text \<open>
  Lines 308-344: the rollback block. It returns \<^verbatim>\<open>RR_INVALID\<close> when the read that
  re-validates the remaining tail fails, and otherwise hands on \<^verbatim>\<open>off\<close> and the file,
  after the restart call on the line observer. \<^verbatim>\<open>lf_line_buffer.clear()\<close> empties the
  read cache of the line source and changes none of its answers.
\<close>

definition rollback ::
  "'s logfile \<Rightarrow> fault + (rebuild_result_t \<times> 's logfile, off_t \<times> 's logfile) flow" where
  "rollback lf =
     (if lf_index lf \<noteq> [] then
        (let off = ll_offset (last (lf_index lf))
         in case drop_last_line (lf_index lf) 0 of
              Inl e \<Rightarrow> Inl e
            | Inr (idx', rollback_size) \<Rightarrow>
                (let lf1 = lf\<lparr>lf_index := idx'\<rparr>
                 in if lf_index lf1 \<noteq> [] then
                      (let check_line_off = ll_offset (last (lf_index lf1))
                       in case lb_read_range (lf_line_buffer lf1)
                                 \<lparr>fr_offset = check_line_off,
                                  fr_size = lf_index_size lf1 - check_line_off\<rparr> of
                            Throws \<Rightarrow> Inl Line_buffer_error
                          | Err msg \<Rightarrow> Inr (Returned (RR_INVALID, close lf1))
                          | Ok sbr \<Rightarrow>
                              Inr (Running (off, notify_logline [Logline_restart rollback_size] lf1)))
                    else Inr (Running (off, notify_logline [Logline_restart rollback_size] lf1))))
      else Inr (Running (0, notify_logline [Logline_restart 0] lf)))"

text \<open>
  Lines 365-389: the first half of the loop body for a loaded line \<^verbatim>\<open>li\<close>. The
  indexed extent is moved past the line, the text format is sniffed when the index is
  empty, and the bytes of the line are read and trimmed; a failed read closes the
  file. It hands on the trimmed bytes \<^verbatim>\<open>sbr\<close> and the file as \<^verbatim>\<open>process_prefix\<close> is
  to receive it.
\<close>

definition fetch_line ::
  "externals \<Rightarrow> 's logfile \<Rightarrow> line_info
     \<Rightarrow> fault + (rebuild_result_t \<times> 's logfile, string \<times> 's logfile) flow" where
  "fetch_line ex lf li =
     (let old_size = length (lf_index lf);
          lf1 = lf\<lparr>lf_index_size := next_offset (li_file_range li)\<rparr>
      in case (if old_size = 0 then
                 (case lb_read_range (lf_line_buffer lf1) (lb_get_available (lf_line_buffer lf1)) of
                    Throws \<Rightarrow> Inl Line_buffer_error
                  | Err msg \<Rightarrow> Inr (lf1\<lparr>lf_text_format := TF_UNKNOWN\<rparr>)
                  | Ok avail_sbr \<Rightarrow> Inr (lf1\<lparr>lf_text_format := detect_text_format ex avail_sbr\<rparr>))
               else Inr lf1) of
           Inl e \<Rightarrow> Inl e
         | Inr lf2 \<Rightarrow>
             (case lb_read_range (lf_line_buffer lf2) (li_file_range li) of
                Throws \<Rightarrow> Inl Line_buffer_error
              | Err msg \<Rightarrow> Inr (Returned (RR_INVALID, close lf2))
              | Ok buf \<Rightarrow>
                  (let sbr = rtrim is_line_ending buf
                   in Inr (Running
                        (sbr, lf2\<lparr>lf_longest_line := max (lf_longest_line lf2) (length sbr),
                                   lf_partial_line := li_partial li\<rparr>)))))"

text \<open>
  Lines 363-408: the body of the scan loop for one loaded line \<^verbatim>\<open>li\<close>. It hands on
  the flag \<^verbatim>\<open>sort_needed\<close>, the file and the root formats.
\<close>

definition scan_line ::
  "externals \<Rightarrow> stat \<Rightarrow> 's log_format list \<Rightarrow> 's logfile \<Rightarrow> line_info \<Rightarrow> bool
     \<Rightarrow> fault + (rebuild_result_t \<times> 's logfile \<times> 's log_format list,
                 bool \<times> 's logfile \<times> 's log_format list) flow" where
  "scan_line ex st roots lf li sort_needed =
     (let old_size = length (lf_index lf)
      in case fetch_line ex lf li of
           Inl e \<Rightarrow> Inl e
         | Inr (Returned (r, lf2)) \<Rightarrow> Inr (Returned (r, lf2, roots))
         | Inr (Running (sbr, lf3)) \<Rightarrow>
             (case process_prefix ex roots lf3 sbr li of
                Inl e \<Rightarrow> Inl e
              | Inr (resort, lf4, roots') \<Rightarrow>
                  (let sort_needed' = (resort \<or> sort_needed);
                       old_size' = (if old_size > length (lf_index lf4) then 0 else old_size);
                       lf5 = notify_logline
                               (map (\<lambda>i. Logline_new_line i sbr)
                                  [old_size'..<length (lf_index lf4)]) lf4;
                       lf6 = notify_logfile
                               (Logfile_indexing
                                  (lb_get_read_offset (lf_line_buffer lf5)
                                     (next_offset (li_file_range li)))
                                  (st_size st)) lf5
                   in Inr (Running (sort_needed', lf6, roots')))))"

text \<open>
  Lines 350-413: \<^verbatim>\<open>while (true)\<close>. Nothing in the loop bounds the number of lines the
  line source hands out, so the loop takes fuel: \<open>None\<close> is a loop that has not left
  after that many lines.
\<close>

fun scan_loop ::
  "nat \<Rightarrow> externals \<Rightarrow> stat \<Rightarrow> bool \<Rightarrow> 's log_format list \<Rightarrow> 's logfile \<Rightarrow> file_range \<Rightarrow> bool
     \<Rightarrow> (fault + (rebuild_result_t \<times> 's logfile \<times> 's log_format list,
                  file_range \<times> bool \<times> 's logfile \<times> 's log_format list) flow) option" where
  "scan_loop 0 ex st has_format roots lf prev_range sort_needed = None"
| "scan_loop (Suc fuel) ex st has_format roots lf prev_range sort_needed =
     (case lb_load_next_line (lf_line_buffer lf) prev_range of
        Throws \<Rightarrow> Some (Inl Line_buffer_error)
      | Err msg \<Rightarrow> Some (Inr (Returned (RR_INVALID, close lf, roots)))
      | Ok li \<Rightarrow>
          if fr_empty (li_file_range li) then
            Some (Inr (Running (prev_range, sort_needed, lf, roots)))
          else
            (case scan_line ex st roots lf li sort_needed of
               Inl e \<Rightarrow> Some (Inl e)
             | Inr (Returned r) \<Rightarrow> Some (Inr (Returned r))
             | Inr (Running (sort_needed', lf', roots')) \<Rightarrow>
                 if \<not> has_format \<and> lf_format lf' \<noteq> None then
                   Some (Inr (Running (li_file_range li, sort_needed', lf', roots')))
                 else scan_loop fuel ex st has_format roots' lf' (li_file_range li) sort_needed'))"

text \<open>Lines 446-458: the end of \<^verbatim>\<open>rebuild_index\<close>, reached by every path that has not returned.\<close>

definition rebuild_tail :: "stat \<Rightarrow> 's logfile \<Rightarrow> 's logfile" where
  "rebuild_tail st lf =
     (let lf1 = lf\<lparr>lf_index_time := lb_get_file_time (lf_line_buffer lf)\<rparr>;
          lf2 = (if lf_index_time lf1 = 0 then lf1\<lparr>lf_index_time := st_mtime st\<rparr> else lf1)
      in if lf_out_of_time_order_count lf2 \<noteq> 0 then lf2\<lparr>lf_out_of_time_order_count := 0\<rparr>
         else lf2)"

text \<open>
  Lines 415-444 and 446-458: what follows the scan loop. A \<^verbatim>\<open>return\<close> inside the loop
  has left the function; otherwise the line observer is told of the end of the pass,
  the indexed extent and the stat snapshot are updated and the result is chosen from
  \<^verbatim>\<open>sort_needed\<close>. The resource-usage accounting (\<^verbatim>\<open>getrusage\<close>, logging) has no
  effect on the index and is left out.
\<close>

definition finish_pass ::
  "stat
     \<Rightarrow> (fault + (rebuild_result_t \<times> 's logfile \<times> 's log_format list,
                  file_range \<times> bool \<times> 's logfile \<times> 's log_format list) flow) option
     \<Rightarrow> (fault + rebuild_result_t \<times> 's logfile \<times> 's log_format list) option" where
  "finish_pass st res =
     (case res of
        None \<Rightarrow> None
      | Some (Inl e) \<Rightarrow> Some (Inl e)
      | Some (Inr (Returned r)) \<Rightarrow> Some (Inr r)
      | Some (Inr (Running (prev_range, sort_needed, lf4, roots'))) \<Rightarrow>
          (let lf5 = notify_logline [Logline_eof] lf4;
               lf6 = lf5\<lparr>lf_index_size := next_offset prev_range, lf_stat := st\<rparr>;
               retval = (if sort_needed then RR_NEW_ORDER else RR_NEW_LINES)
           in Some (Inr (retval, rebuild_tail st lf6, roots'))))"

text \<open>Lines 291-444: the pass over new data.\<close>

definition rebuild_pass ::
  "nat \<Rightarrow> externals \<Rightarrow> stat \<Rightarrow> 's log_format list \<Rightarrow> 's logfile
     \<Rightarrow> (fault + rebuild_result_t \<times> 's logfile \<times> 's log_format list) option" where
  "rebuild_pass fuel ex st roots lf =
     (let lf1 = lf\<lparr>la_reads := la_reads lf + 1\<rparr>;
          has_format = (lf_format lf1 \<noteq> None)
      in case rollback lf1 of
           Inl e \<Rightarrow> Some (Inl e)
         | Inr (Returned (r, lf2)) \<Rightarrow> Some (Inr (r, lf2, roots))
         | Inr (Running (off, lf2)) \<Rightarrow>
             (let sort_needed = lf_sort_needed lf2;
                  lf3 = lf2\<lparr>lf_sort_needed := False\<rparr>
              in finish_pass st
                   (scan_loop fuel ex st has_format roots lf3 \<lparr>fr_offset = off, fr_size = 0\<rparr>
                      sort_needed)))"

text \<open>\<^verbatim>\<open>logfile::rebuild_index\<close>.\<close>

definition rebuild_index ::
  "nat \<Rightarrow> externals \<Rightarrow> 's log_format list \<Rightarrow> 's logfile
     \<Rightarrow> (fault + rebuild_result_t \<times> 's logfile \<times> 's log_format list) option" where
  "rebuild_index fuel ex roots lf0 =
     (let lf = lf0\<lparr>la_polls := la_polls lf0 + 1\<rparr>
      in case lb_fstat (lf_line_buffer lf) of
           None \<Rightarrow> Some (Inl Logfile_error)
         | Some st \<Rightarrow>
             if st_size st < st_size (lf_stat lf) \<or>
                (st_size (lf_stat lf) = st_size st \<and> st_mtime (lf_stat lf) \<noteq> st_mtime st)
             then Some (Inr (RR_NO_NEW_LINES, close lf, roots))
             else if lb_is_data_available (lf_line_buffer lf) (lf_index_size lf) (st_size st)
             then rebuild_pass fuel ex st roots lf
             else Some (Inr (RR_NO_NEW_LINES, rebuild_tail st lf, roots)))"

section \<open>Fixtures for the concrete scenarios\<close>

text \<open>
  Modelled from the spec: a line source that satisfies the line-source contract
  (section 6) for a plain file holding the bytes \<open>content\<close>, last modified at \<open>mtime\<close>:
  the next complete line after a range runs up to and including the next line feed, a
  last line without one is handed out once, flagged partial, and an empty range says
  that no more lines are available. A plain file reports no file time of its own.
\<close>

definition plain_load_next_line :: "string \<Rightarrow> file_range \<Rightarrow> line_info io_result" where
  "plain_load_next_line content prev =
     (let off = next_offset prev;
          rest = drop (nat off) content;
          line = takeWhile (\<lambda>c. c \<noteq> CHR 0x0A) rest
      in if rest = [] then
           Ok \<lparr>li_file_range = \<lparr>fr_offset = off, fr_size = 0\<rparr>,
               li_partial = False, li_valid_utf = True\<rparr>
         else if length line < length rest then
           Ok \<lparr>li_file_range = \<lparr>fr_offset = off, fr_size = int (length line) + 1\<rparr>,
               li_partial = False, li_valid_utf = True\<rparr>
         else
           Ok \<lparr>li_file_range = \<lparr>fr_offset = off, fr_size = int (length line)\<rparr>,
               li_partial = True, li_valid_utf = True\<rparr>)"

definition plain_read_range :: "string \<Rightarrow> file_range \<Rightarrow> string io_result" where
  "plain_read_range content fr =
     (if 0 \<le> fr_offset fr \<and> 0 \<le> fr_size fr \<and> next_offset fr \<le> int (length content)
      then Ok (take (nat (fr_size fr)) (drop (nat (fr_offset fr)) content))
      else Err ''short read'')"

definition plain_file :: "string \<Rightarrow> time_t \<Rightarrow> line_buffer" where
  "plain_file content mtime =
     \<lparr>lb_fstat = Some \<lparr>st_is_reg = True, st_dev = 1, st_ino = 1,
                        st_size = int (length content), st_mtime = mtime\<rparr>,
      lb_get_file_time = 0,
      lb_is_data_available = (\<lambda>start size. start < size),
      lb_read_range = plain_read_range content,
      lb_load_next_line = plain_load_next_line content,
      lb_get_available = \<lparr>fr_offset = 0, fr_size = int (length content)\<rparr>,
      lb_get_read_offset = (\<lambda>off. off)\<rparr>"

text \<open>
  A format for lines that start with an ISO timestamp \<^verbatim>\<open>YYYY-MM-DDTHH:MM:SS\<close>: a line
  that starts with one is a match and appends one entry with that time; any other
  line is no match and leaves the index alone.
\<close>

definition digit :: "char \<Rightarrow> int option" where
  "digit c = (let n = (of_char c :: nat) in if 48 \<le> n \<and> n \<le> 57 then Some (int n - 48) else None)"

fun digits :: "string \<Rightarrow> int \<Rightarrow> int option" where
  "digits [] acc = Some acc"
| "digits (c # cs) acc = (case digit c of None \<Rightarrow> None | Some d \<Rightarrow> digits cs (10 * acc + d))"

definition days_from_civil :: "int \<Rightarrow> int \<Rightarrow> int \<Rightarrow> int" where
  "days_from_civil y m d =
     (let y' = (if m \<le> 2 then y - 1 else y);
          era = y' div 400;
          yoe = y' - era * 400;
          doy = (153 * (if m > 2 then m - 3 else m + 9) + 2) div 5 + d - 1;
          doe = yoe * 365 + yoe div 4 - yoe div 100 + doy
      in era * 146097 + doe - 719468)"

definition parse_iso :: "string \<Rightarrow> time_t option" where
  "parse_iso s =
     (if length s < 19 \<or> s ! 4 \<noteq> CHR ''-'' \<or> s ! 7 \<noteq> CHR ''-'' \<or> s ! 10 \<noteq> CHR ''T'' \<or>
         s ! 13 \<noteq> CHR '':'' \<or> s ! 16 \<noteq> CHR '':'' then None
      else
        case (digits (take 4 s) 0, digits (take 2 (drop 5 s)) 0, digits (take 2 (drop 8 s)) 0,
              digits (take 2 (drop 11 s)) 0, digits (take 2 (drop 14 s)) 0,
              digits (take 2 (drop 17 s)) 0) of
          (Some y, Some mo, Some d, Some h, Some mi, Some sec) \<Rightarrow>
            Some (days_from_civil y mo d * 86400 + h * 3600 + mi * 60 + sec)
        | _ \<Rightarrow> None)"

definition iso_scan ::
  "unit \<Rightarrow> time_t \<Rightarrow> logline list \<Rightarrow> line_info \<Rightarrow> string \<Rightarrow> scan_result_t \<times> logline list \<times> unit" where
  "iso_scan s base idx li sbr =
     (case parse_iso sbr of
        None \<Rightarrow> (SCAN_NO_MATCH, idx, ())
      | Some t \<Rightarrow> (SCAN_MATCH, idx @ [mk_logline (fr_offset (li_file_range li)) t 0 4 0 0], ()))"

definition iso_format :: "bool \<Rightarrow> unit log_format" where
  "iso_format ordered =
     \<lparr>lf_time_ordered = ordered, lf_base_time = 0, fmt_state = (),
      match_name = (\<lambda>name. True), clear = (\<lambda>s. s), scan = iso_scan,
      get_subline = (\<lambda>ll sbr full. sbr)\<rparr>"

definition test_externals :: externals where
  "test_externals = \<lparr>hash_string = (\<lambda>s. ''#'' @ s), detect_text_format = (\<lambda>s. TF_UNKNOWN)\<rparr>"

definition test_options :: logfile_open_options where
  "test_options = \<lparr>loo_fd = - 1, loo_detect_format = True\<rparr>"

definition test_stat :: "string \<Rightarrow> time_t \<Rightarrow> stat" where
  "test_stat content mtime =
     \<lparr>st_is_reg = True, st_dev = 1, st_ino = 1, st_size = int (length content), st_mtime = mtime\<rparr>"

definition fresh_logfile :: "bool \<Rightarrow> string \<Rightarrow> time_t \<Rightarrow> unit logfile" where
  "fresh_logfile by_path content mtime =
     new_logfile test_externals ''a.log'' by_path (test_stat content mtime)
       (test_options\<lparr>loo_fd := 3\<rparr>) (plain_file content mtime)"

definition test_fs :: "string \<Rightarrow> time_t \<Rightarrow> filesystem" where
  "test_fs content mtime =
     \<lparr>fs_realpath = (\<lambda>p. Some p), fs_stat = (\<lambda>p. Some (test_stat content mtime)),
      fs_open = (\<lambda>p. Some 3), fs_fstat = (\<lambda>fd. Some (test_stat content mtime)),
      fs_line_buffer = (\<lambda>fd. plain_file content mtime)\<rparr>"

definition file_becomes :: "string \<Rightarrow> time_t \<Rightarrow> 's logfile \<Rightarrow> 's logfile" where
  "file_becomes content mtime lf = lf\<lparr>lf_line_buffer := plain_file content mtime\<rparr>"

definition result_of ::
  "(fault + rebuild_result_t \<times> 's logfile \<times> 's log_format list) option \<Rightarrow> rebuild_result_t option" where
  "result_of res = (case res of Some (Inr (r, lf, roots)) \<Rightarrow> Some r | _ \<Rightarrow> None)"

definition file_after ::
  "(fault + rebuild_result_t \<times> 's logfile \<times> 's log_format list) option \<Rightarrow> 's logfile \<Rightarrow> 's logfile" where
  "file_after res lf = (case res of Some (Inr (r, lf', roots)) \<Rightarrow> lf' | _ \<Rightarrow> lf)"

definition file100 :: string where
  "file100 = concat (replicate 10 ''123456789\<newline>'')"

definition indexed100 :: "bool \<Rightarrow> unit logfile" where
  "indexed100 by_path =
     file_after (rebuild_index 20 test_externals [] (fresh_logfile by_path file100 7))
       (fresh_logfile by_path file100 7)"

definition partial_file :: string where
  "partial_file = ''2023-01-01T10:00:00 INFO partial''"

definition indexed_partial :: "unit logfile" where
  "indexed_partial =
     file_after (rebuild_index 20 test_externals [iso_format True] (fresh_logfile True partial_file 7))
       (fresh_logfile True partial_file 7)"

text \<open>
  The indexed file of ten lines with its second row turned into a continuation row of
  the first, and the same file after its truncation to 50 bytes.
\<close>

definition sub_row_file :: "unit logfile" where
  "sub_row_file =
     (indexed100 True)\<lparr>lf_index := (lf_index (indexed100 True))
        [1 := (lf_index (indexed100 True) ! 1)\<lparr>ll_sub_offset := 1\<rparr>]\<rparr>"

definition truncated_file :: "unit logfile" where
  "truncated_file = file_becomes (take 50 file100) 8 (indexed100 True)"

text \<open>
  Scenarios of several passes: the results of the passes so far, the file and the root
  formats. \<open>next_pass\<close> runs one rebuild (a pass that raises leaves the scenario as it
  is), \<open>grow\<close> replaces the content of the file.
\<close>

type_synonym scenario = "rebuild_result_t list \<times> unit logfile \<times> unit log_format list"

definition start :: "unit log_format list \<Rightarrow> string \<Rightarrow> time_t \<Rightarrow> scenario" where
  "start roots content mtime = ([], fresh_logfile True content mtime, roots)"

definition next_pass :: "scenario \<Rightarrow> scenario" where
  "next_pass s =
     (case s of
        (rs, lf, roots) \<Rightarrow>
          (case rebuild_index 20 test_externals roots lf of
             Some (Inr (r, lf', roots')) \<Rightarrow> (rs @ [r], lf', roots')
           | _ \<Rightarrow> (rs, lf, roots)))"

definition grow :: "string \<Rightarrow> time_t \<Rightarrow> scenario \<Rightarrow> scenario" where
  "grow content mtime s = (case s of (rs, lf, roots) \<Rightarrow> (rs, file_becomes content mtime lf, roots))"

definition results :: "scenario \<Rightarrow> rebuild_result_t list" where
  "results s = fst s"

definition file_of :: "scenario \<Rightarrow> unit logfile" where
  "file_of s = fst (snd s)"

text \<open>Index entries as the ISO format makes them.\<close>

definition iso_entry :: "off_t \<Rightarrow> time_t \<Rightarrow> logline" where
  "iso_entry off t = mk_logline off t 0 4 0 0"

text \<open>
  Four lines, timestamped 10:00:00, 10:00:00, 10:00:02 and 10:00:01, of 22 bytes
  each; \<open>1672567200\<close> is 2023-01-01T10:00:00.
\<close>

definition line_x :: string where "line_x = ''2023-01-01T10:00:00 x\<newline>''"
definition line_y :: string where "line_y = ''2023-01-01T10:00:00 y\<newline>''"
definition line_a :: string where "line_a = ''2023-01-01T10:00:02 a\<newline>''"
definition line_b :: string where "line_b = ''2023-01-01T10:00:01 b\<newline>''"

definition li_at :: "off_t \<Rightarrow> int \<Rightarrow> line_info" where
  "li_at off n = \<lparr>li_file_range = \<lparr>fr_offset = off, fr_size = n\<rparr>,
                  li_partial = False, li_valid_utf = True\<rparr>"

text \<open>
  The file with the first three lines, indexed by two passes (the first stops at the
  line on which the format locks in), and then grown by the fourth line.
\<close>

definition three_indexed :: "bool \<Rightarrow> scenario" where
  "three_indexed ordered =
     next_pass (next_pass (start [iso_format ordered] (line_x @ line_y @ line_a) 7))"

definition before_line_b :: "bool \<Rightarrow> unit logfile" where
  "before_line_b ordered =
     file_becomes (line_x @ line_y @ line_a @ line_b) 8 (file_of (three_indexed ordered))"

text \<open>The two lines 10:00:02 and 10:00:01 alone in a file, polled twice.\<close>

definition two_lines_polled :: "bool \<Rightarrow> scenario" where
  "two_lines_polled ordered = next_pass (next_pass (start [iso_format ordered] (line_a @ line_b) 7))"

text \<open>The same two lines appended to a file whose first two lines are indexed.\<close>

definition two_lines_appended :: "bool \<Rightarrow> scenario" where
  "two_lines_appended ordered =
     next_pass (grow (line_x @ line_y @ line_a @ line_b) 8
       (next_pass (next_pass (start [iso_format ordered] (line_x @ line_y) 7))))"

text \<open>
  A line source whose reads fail with an I/O error for every range that starts at or
  after offset \<open>k\<close>.
\<close>

definition failing_from :: "off_t \<Rightarrow> line_buffer \<Rightarrow> line_buffer" where
  "failing_from k lb =
     lb\<lparr>lb_read_range := (\<lambda>fr. if fr_offset fr < k then lb_read_range lb fr else Err ''EIO'')\<rparr>"

definition grow_failing :: "off_t \<Rightarrow> string \<Rightarrow> time_t \<Rightarrow> scenario \<Rightarrow> scenario" where
  "grow_failing k content mtime s =
     (case s of
        (rs, lf, roots) \<Rightarrow>
          (rs, lf\<lparr>lf_line_buffer := failing_from k (plain_file content mtime)\<rparr>, roots))"




definition observing :: "scenario \<Rightarrow> scenario" where
  "observing s = (case s of (rs, lf, roots) \<Rightarrow> (rs, lf\<lparr>lf_logline_observer := True\<rparr>, roots))"

text \<open>The file of the backfill scenario, and the file with its two unrecognised lines only.\<close>

definition backfill_file :: string where
  "backfill_file = ''garbage\<newline>garbage2\<newline>2023-01-01T10:00:00 INFO start\<newline>''"

definition backfilled :: scenario where
  "backfilled = next_pass (start [iso_format True] backfill_file 7)"

definition before_start_line :: "unit logfile" where
  "before_start_line =
     file_becomes backfill_file 8
       (file_of (next_pass (start [iso_format True] ''garbage\<newline>garbage2\<newline>'' 7)))"

text \<open>The three indexed lines followed by a line that the format does not recognise.\<close>

definition before_trace_line :: "unit logfile" where
  "before_trace_line =
     file_becomes (line_x @ line_y @ line_a @ ''  at main()\<newline>'') 8 (file_of (three_indexed True))"




definition rollback_then_read_failure :: scenario where
  "rollback_then_read_failure =
     next_pass (grow_failing 0 (line_x @ line_y @ line_a) 8
       (observing (next_pass (next_pass (start [iso_format True] (line_x @ line_y) 7)))))"

text \<open>
  The two indexed lines with a line observer registered and the file grown by a third
  line; the same with a continuation row added to the last group.
\<close>

definition observed_growth :: scenario where
  "observed_growth =
     grow (line_x @ line_y @ line_a) 8
       (observing (next_pass (next_pass (start [iso_format True] (line_x @ line_y) 7))))"

definition with_sub_row :: "unit logfile \<Rightarrow> unit logfile" where
  "with_sub_row lf = lf\<lparr>lf_index := lf_index lf @ [(last (lf_index lf))\<lparr>ll_sub_offset := 1\<rparr>]\<rparr>"


section \<open>The specification's description of a line's length\<close>

text \<open>
  The end boundary of a line, in the words of the specification: the next entry after
  the queried position whose start offset differs and that is not a continuation row
  to be included.
\<close>

definition line_end_boundary :: "logline list \<Rightarrow> nat \<Rightarrow> bool \<Rightarrow> logline option" where
  "line_end_boundary idx ll include_continues =
     find (\<lambda>e. ll_offset e \<noteq> ll_offset (idx ! ll) \<and> \<not> (include_continues \<and> is_continued e))
       (drop (Suc ll) idx)"

text \<open>
  The length computed from that boundary: up to the boundary less the terminator byte,
  or, in the last group, up to the indexed extent, less the terminator byte unless the
  tail is partial (or no byte is left).
\<close>

definition spec_line_length :: "'s logfile \<Rightarrow> nat \<Rightarrow> bool \<Rightarrow> nat" where
  "spec_line_length lf ll include_continues =
     (case line_end_boundary (lf_index lf) ll include_continues of
        Some e \<Rightarrow> to_size_t (ll_offset e - ll_offset (lf_index lf ! ll) - 1)
      | None \<Rightarrow>
          if to_size_t (lf_index_size lf - ll_offset (lf_index lf ! ll)) > 0 \<and> \<not> lf_partial_line lf
          then to_size_t (lf_index_size lf - ll_offset (lf_index lf ! ll)) - 1
          else to_size_t (lf_index_size lf - ll_offset (lf_index lf ! ll)))"

section \<open>Line sources over a finite file\<close>


section \<open>Basic facts\<close>

text \<open>The fixtures are what the constructor builds.\<close>

lemma ctor_by_path:
  "logfile_ctor test_externals (test_fs content mtime) ''a.log'' test_options =
     Inr (fresh_logfile True content mtime)"
  by (simp add: logfile_ctor_def test_fs_def test_options_def fresh_logfile_def test_stat_def)

lemma ctor_by_fd:
  "logfile_ctor test_externals (test_fs content mtime) ''a.log'' (test_options\<lparr>loo_fd := 3\<rparr>) =
     Inr (fresh_logfile False content mtime)"
  by (simp add: logfile_ctor_def test_fs_def test_options_def fresh_logfile_def test_stat_def)

lemma rebuild_tail_fields [simp]:
  "lf_index (rebuild_tail st lf) = lf_index lf"
  "lf_stat (rebuild_tail st lf) = lf_stat lf"
  "lf_line_buffer (rebuild_tail st lf) = lf_line_buffer lf"
  "lf_index_size (rebuild_tail st lf) = lf_index_size lf"
  "la_polls (rebuild_tail st lf) = la_polls lf"
  "lf_is_closed (rebuild_tail st lf) = lf_is_closed lf"
  "lf_out_of_time_order_count (rebuild_tail st lf) = 0"
  "lf_index_time (rebuild_tail st lf) =
     (if lb_get_file_time (lf_line_buffer lf) = 0 then st_mtime st
      else lb_get_file_time (lf_line_buffer lf))"
  by (simp_all add: rebuild_tail_def Let_def)

section \<open>The loops over the index\<close>

lemma backfill_fold:
  assumes "n < length idx"
  shows "length (fold (\<lambda>lpc ix. ix[lpc := (ix ! lpc)\<lparr>ll_time := ll_time (ix ! (length ix - 1)),
                                         ll_millis := ll_millis (ix ! (length ix - 1))\<rparr>])
                   [0..<n] idx) = length idx \<and>
         (\<forall>i<length idx.
            fold (\<lambda>lpc ix. ix[lpc := (ix ! lpc)\<lparr>ll_time := ll_time (ix ! (length ix - 1)),
                                         ll_millis := ll_millis (ix ! (length ix - 1))\<rparr>])
                   [0..<n] idx ! i =
            (if i < n then (idx ! i)\<lparr>ll_time := ll_time (idx ! (length idx - 1)),
                                     ll_millis := ll_millis (idx ! (length idx - 1))\<rparr>
             else idx ! i))"
  using assms
proof (induction n)
  case 0
  then show ?case by simp
next
  case (Suc n)
  then have "n < length idx" by simp
  from Suc.IH [OF this] Suc.prems show ?case
    by (auto simp add: nth_list_update)
qed

lemma length_backfill [simp]: "length (backfill idx) = length idx"
proof (cases "idx = []")
  case True
  then show ?thesis by (simp add: backfill_def)
next
  case False
  then have "length idx - 1 < length idx" by simp
  from backfill_fold [OF this] show ?thesis by (simp add: backfill_def)
qed

lemma nth_backfill:
  assumes "i < length idx"
  shows "backfill idx ! i =
           (if i < length idx - 1
            then (idx ! i)\<lparr>ll_time := ll_time (last idx), ll_millis := ll_millis (last idx)\<rparr>
            else idx ! i)"
proof -
  from assms have ne: "idx \<noteq> []" by auto
  then have "length idx - 1 < length idx" by simp
  from backfill_fold [OF this] assms show ?thesis
    by (simp add: backfill_def last_conv_nth [OF ne])
qed

lemma skew_fold:
  assumes "0 < p" "p \<le> n" "n \<le> length idx"
  shows "length (fold (\<lambda>lpc ix. ix[lpc := (ix ! lpc)\<lparr>ll_time_skew := True,
                                         ll_time := ll_time (ix ! (p - 1)),
                                         ll_millis := ll_millis (ix ! (p - 1))\<rparr>])
                   [p..<n] idx) = length idx \<and>
         (\<forall>i<length idx.
            fold (\<lambda>lpc ix. ix[lpc := (ix ! lpc)\<lparr>ll_time_skew := True,
                                         ll_time := ll_time (ix ! (p - 1)),
                                         ll_millis := ll_millis (ix ! (p - 1))\<rparr>])
                   [p..<n] idx ! i =
            (if p \<le> i \<and> i < n
             then (idx ! i)\<lparr>ll_time_skew := True, ll_time := ll_time (idx ! (p - 1)),
                             ll_millis := ll_millis (idx ! (p - 1))\<rparr>
             else idx ! i))"
  using assms(2,3)
proof (induction n)
  case 0
  with assms(1) show ?case by simp
next
  case (Suc n)
  show ?case
  proof (cases "p \<le> n")
    case False
    with Suc.prems have "p = Suc n" by simp
    then show ?thesis by auto
  next
    case True
    moreover from Suc.prems have "n \<le> length idx" by simp
    ultimately have IH: "length (fold (\<lambda>lpc ix. ix[lpc := (ix ! lpc)\<lparr>ll_time_skew := True,
                                         ll_time := ll_time (ix ! (p - 1)),
                                         ll_millis := ll_millis (ix ! (p - 1))\<rparr>])
                   [p..<n] idx) = length idx \<and>
         (\<forall>i<length idx.
            fold (\<lambda>lpc ix. ix[lpc := (ix ! lpc)\<lparr>ll_time_skew := True,
                                         ll_time := ll_time (ix ! (p - 1)),
                                         ll_millis := ll_millis (ix ! (p - 1))\<rparr>])
                   [p..<n] idx ! i =
            (if p \<le> i \<and> i < n
             then (idx ! i)\<lparr>ll_time_skew := True, ll_time := ll_time (idx ! (p - 1)),
                             ll_millis := ll_millis (idx ! (p - 1))\<rparr>
             else idx ! i))"
      by (rule Suc.IH)
    from True have u: "[p..<Suc n] = [p..<n] @ [n]" by simp
    from IH True Suc.prems assms(1) show ?thesis
      unfolding u by (auto simp add: nth_list_update)
  qed
qed

lemma length_skew_loop:
  assumes "0 < p" "p \<le> length idx"
  shows "length (skew_loop p idx) = length idx"
  using skew_fold [OF assms(1) assms(2) le_refl] by (simp add: skew_loop_def)

lemma nth_skew_loop:
  assumes "0 < p" "p \<le> length idx" "i < length idx"
  shows "skew_loop p idx ! i =
           (if p \<le> i
            then (idx ! i)\<lparr>ll_time_skew := True, ll_time := ll_time (idx ! (p - 1)),
                            ll_millis := ll_millis (idx ! (p - 1))\<rparr>
            else idx ! i)"
  using skew_fold [OF assms(1) assms(2) le_refl] assms(3) by (simp add: skew_loop_def)

lemma length_set_back_valid_utf [simp]: "length (set_back_valid_utf v idx) = length idx"
  by (simp add: set_back_valid_utf_def)

lemma nth_set_back_valid_utf:
  "i < length idx \<Longrightarrow>
   set_back_valid_utf v idx ! i =
     (if i = length idx - 1 then (idx ! i)\<lparr>ll_valid_utf := v\<rparr> else idx ! i)"
  by (simp add: set_back_valid_utf_def nth_list_update)

lemma backfill_eq_Nil [simp]: "backfill idx = [] \<longleftrightarrow> idx = []"
  by (metis length_0_conv length_backfill)

lemma set_back_valid_utf_eq_Nil [simp]: "set_back_valid_utf v idx = [] \<longleftrightarrow> idx = []"
  by (simp add: set_back_valid_utf_def)

section \<open>The scan stage of \<open>process_prefix\<close>\<close>

lemma set_format_base_time_index [simp]:
  "set_format_base_time (lf\<lparr>lf_index := idx\<rparr>) f = set_format_base_time lf f"
  by (simp add: set_format_base_time_def Let_def)

lemma try_formats_match:
  assumes "try_formats ex lf sbr li fs found = Inr (SCAN_MATCH, lf', fs')"
    and "found \<noteq> SCAN_MATCH"
  shows "\<exists>f idx0 idx' f'.
           f \<in> set fs \<and> match_name f (lf_filename lf) \<and>
           fmt_scan (set_format_base_time lf (fmt_clear f)) idx0 li sbr = (SCAN_MATCH, idx', f') \<and>
           idx' \<noteq> [] \<and>
           lf' = lf\<lparr>lf_content_id := hash_string ex sbr,
                    lf_format := Some (set_format_base_time lf (specialized f')),
                    lf_index := backfill idx'\<rparr>"
  using assms
proof (induction ex lf sbr li fs found arbitrary: lf' fs' rule: try_formats.induct)
  case (1 ex lf sbr li found)
  then show ?case by simp
next
  case (2 ex lf sbr li f fs found)
  show ?case
  proof (cases "match_name f (lf_filename lf)")
    case False
    with "2.prems" obtain fs'' where "try_formats ex lf sbr li fs found = Inr (SCAN_MATCH, lf', fs'')"
      by (auto split: sum.splits)
    from "2.IH"(1) [OF "2.prems"(2) False this "2.prems"(2)] show ?thesis by auto
  next
    case True
    obtain found1 idx1 f1 where
      sc: "fmt_scan (set_format_base_time lf (fmt_clear f)) (lf_index lf) li sbr = (found1, idx1, f1)"
      by (cases "fmt_scan (set_format_base_time lf (fmt_clear f)) (lf_index lf) li sbr")
    show ?thesis
    proof (cases "found1 = SCAN_MATCH")
      case m: True
      with "2.prems" True sc have "idx1 \<noteq> []" and
        "lf' = lf\<lparr>lf_content_id := hash_string ex sbr,
                  lf_format := Some (set_format_base_time lf (specialized f1)),
                  lf_index := backfill idx1\<rparr>"
        by (auto simp add: Let_def split: if_splits)
      with True sc m show ?thesis
        by - (rule exI [where x = f], rule exI [where x = "lf_index lf"],
              rule exI [where x = idx1], rule exI [where x = f1], simp)
    next
      case nm: False
      with "2.prems" True sc obtain fs'' where
        r: "try_formats ex (lf\<lparr>lf_index := idx1\<rparr>) sbr li fs found1 = Inr (SCAN_MATCH, lf', fs'')"
        by (auto split: sum.splits)
      from True have nn: "\<not> \<not> match_name f (lf_filename lf)" by simp
      from "2.IH"(2) [OF "2.prems"(2) nn sc [symmetric] refl nm r nm]
      obtain g idx0 idx' g' where "g \<in> set fs" "match_name g (lf_filename lf)"
        "fmt_scan (set_format_base_time (lf\<lparr>lf_index := idx1\<rparr>) (fmt_clear g)) idx0 li sbr = (SCAN_MATCH, idx', g')"
        "idx' \<noteq> []"
        "lf' = lf\<lparr>lf_index := idx1, lf_content_id := hash_string ex sbr,
                  lf_format := Some (set_format_base_time (lf\<lparr>lf_index := idx1\<rparr>) (specialized g')),
                  lf_index := backfill idx'\<rparr>"
        by auto
      then show ?thesis
        by - (rule exI [where x = g], rule exI [where x = idx0],
              rule exI [where x = idx'], rule exI [where x = g'], simp)
    qed
  qed
qed





lemma try_formats_no_match:
  assumes "try_formats ex lf sbr li fs found = Inr (found', lf', fs')"
    and "found' \<noteq> SCAN_MATCH"
  shows "lf_format lf' = lf_format lf \<and> lf_content_id lf' = lf_content_id lf"
  using assms
proof (induction ex lf sbr li fs found arbitrary: found' lf' fs' rule: try_formats.induct)
  case (1 ex lf sbr li found)
  then show ?case by simp
next
  case (2 ex lf sbr li f fs found)
  from "2.prems" have nf: "found \<noteq> SCAN_MATCH" by (auto split: if_splits)
  show ?case
  proof (cases "match_name f (lf_filename lf)")
    case False
    with "2.prems" nf obtain fs'' where "try_formats ex lf sbr li fs found = Inr (found', lf', fs'')"
      by (auto split: sum.splits)
    from "2.IH"(1) [OF nf False this "2.prems"(2)] show ?thesis .
  next
    case True
    then have nn: "\<not> \<not> match_name f (lf_filename lf)" by simp
    obtain found1 idx1 f1 where
      sc: "fmt_scan (set_format_base_time lf (fmt_clear f)) (lf_index lf) li sbr = (found1, idx1, f1)"
      by (cases "fmt_scan (set_format_base_time lf (fmt_clear f)) (lf_index lf) li sbr")
    have nm: "found1 \<noteq> SCAN_MATCH"
      using "2.prems" nf True sc by (auto simp add: Let_def split: if_splits)
    with "2.prems" nf True sc obtain fs'' where
      r: "try_formats ex (lf\<lparr>lf_index := idx1\<rparr>) sbr li fs found1 = Inr (found', lf', fs'')"
      by (auto split: sum.splits)
    from "2.IH"(2) [OF nf nn sc [symmetric] refl nm r "2.prems"(2)] show ?thesis by simp
  qed
qed

lemma LEVEL_CONTINUED_nonzero [simp]: "LEVEL_CONTINUED \<noteq> 0"
  by (simp add: LEVEL_CONTINUED_def)

lemma continued_flag: "(x OR LEVEL_CONTINUED) AND LEVEL_CONTINUED \<noteq> 0"
  by (simp add: word_ao_absorbs)

section \<open>The match case after a backfill\<close>

lemma backfilled_times:
  assumes "i < length idx"
  shows "ll_time (set_back_valid_utf v (backfill idx) ! i) = ll_time (last idx) \<and>
         ll_millis (set_back_valid_utf v (backfill idx) ! i) = ll_millis (last idx)"
proof -
  from assms have ne: "idx \<noteq> []" by auto
  have l: "last idx = idx ! (length idx - 1)" by (rule last_conv_nth [OF ne])
  show ?thesis
  proof (cases "i < length idx - 1")
    case True
    with assms show ?thesis by (simp add: nth_set_back_valid_utf nth_backfill)
  next
    case False
    with assms have "i = length idx - 1" by simp
    with assms l show ?thesis by (simp add: nth_set_back_valid_utf nth_backfill)
  qed
qed

lemma backfilled_not_lt:
  "\<not> (0 < p \<and> p < length idx \<and>
      logline_lt (set_back_valid_utf v (backfill idx) ! p)
        (set_back_valid_utf v (backfill idx) ! (p - 1)))"
proof
  assume a: "0 < p \<and> p < length idx \<and>
      logline_lt (set_back_valid_utf v (backfill idx) ! p)
        (set_back_valid_utf v (backfill idx) ! (p - 1))"
  then have "p < length idx" "p - 1 < length idx" by linarith+
  from backfilled_times [OF this(1), of v] backfilled_times [OF this(2), of v] a
  show False by (simp add: logline_lt_def)
qed

lemma pp_match_after_backfill:
  assumes "idx \<noteq> []" "lf_index lf = backfill idx"
  shows "pp_match p t li lf =
           Inr (t \<noteq> ll_time (last idx),
                lf\<lparr>lf_index := set_back_valid_utf (li_valid_utf li) (backfill idx)\<rparr>)"
proof -
  let ?ix = "set_back_valid_utf (li_valid_utf li) (backfill idx)"
  from assms(1) have "0 < length idx" by simp
  from backfilled_times [OF this, of "li_valid_utf li"]
  have t0: "ll_time (?ix ! 0) = ll_time (last idx)" by simp
  from assms(1) have ne: "backfill idx \<noteq> []" "?ix \<noteq> []"
    by simp_all
  have nl: "\<not> (0 < p \<and> p < length ?ix \<and> logline_lt (?ix ! p) (?ix ! (p - 1)))"
    using backfilled_not_lt [of p idx "li_valid_utf li"] by simp
  show ?thesis
  proof (cases "0 < p \<and> p < length ?ix")
    case False
    with ne t0 assms(2) show ?thesis
      by (auto simp add: pp_match_def Let_def)
  next
    case True
    with nl have "\<not> logline_lt (?ix ! p) (?ix ! (p - 1))" by blast
    with True ne t0 assms(2) show ?thesis
      by (simp add: pp_match_def Let_def)
  qed
qed

section \<open>The match case with an entry out of order\<close>

lemma set_back_valid_utf_keeps:
  assumes "i < length idx"
  shows "ll_time (set_back_valid_utf v idx ! i) = ll_time (idx ! i)"
    and "ll_millis (set_back_valid_utf v idx ! i) = ll_millis (idx ! i)"
    and "ll_time_skew (set_back_valid_utf v idx ! i) = ll_time_skew (idx ! i)"
    and "ll_offset (set_back_valid_utf v idx ! i) = ll_offset (idx ! i)"
  using assms by (simp_all add: nth_set_back_valid_utf)

lemma logline_lt_set_back:
  assumes "i < length idx" "j < length idx"
  shows "logline_lt (set_back_valid_utf v idx ! i) (set_back_valid_utf v idx ! j) =
           logline_lt (idx ! i) (idx ! j)"
  using assms by (simp add: logline_lt_def set_back_valid_utf_keeps)

lemma pp_match_out_of_order:
  assumes "lf_format lf = Some fmt" "0 < p" "p < length (lf_index lf)"
    and "logline_lt (lf_index lf ! p) (lf_index lf ! (p - 1))"
  shows "pp_match p t li lf =
           (if lf_time_ordered fmt then
              Inr (t \<noteq> ll_time (lf_index lf ! 0),
                   lf\<lparr>lf_out_of_time_order_count := lf_out_of_time_order_count lf + 1,
                      lf_index := skew_loop p (set_back_valid_utf (li_valid_utf li) (lf_index lf))\<rparr>)
            else Inr (True, lf\<lparr>lf_index := set_back_valid_utf (li_valid_utf li) (lf_index lf)\<rparr>))"
proof -
  let ?ix = "set_back_valid_utf (li_valid_utf li) (lf_index lf)"
  from assms(3) have ne: "lf_index lf \<noteq> []" by auto
  from assms(2,3) have "p - 1 < length (lf_index lf)" by simp
  from logline_lt_set_back [OF assms(3) this, of "li_valid_utf li"] assms(4)
  have lt: "logline_lt (?ix ! p) (?ix ! (p - 1))" by simp
  from ne have "0 < length (lf_index lf)" by simp
  from set_back_valid_utf_keeps(1) [OF this, of "li_valid_utf li"]
  have t0: "ll_time (?ix ! 0) = ll_time (lf_index lf ! 0)" .
  from assms(1-3) ne lt t0 show ?thesis
    by (simp add: pp_match_def Let_def)
qed

lemma process_prefix_locked:
  assumes "lf_format lf = Some fmt"
    and "fmt_scan fmt (lf_index lf) li sbr = (found, idx', fmt')"
  shows "pp_scan ex roots lf sbr li =
           Inr (found, if lf_index lf \<noteq> [] then ll_time (lf_index lf ! 0) else 0,
                lf\<lparr>lf_format := Some fmt', lf_index := idx'\<rparr>, roots)"
  using assms by (simp add: pp_scan_def Let_def)

lemma fmt_scan_time_ordered:
  "fmt_scan fmt idx li sbr = (found, idx', fmt') \<Longrightarrow> lf_time_ordered fmt' = lf_time_ordered fmt"
  by (auto simp add: fmt_scan_def split: prod.splits)

section \<open>What \<open>process_prefix\<close> leaves alone\<close>

lemma pp_match_frame:
  assumes "pp_match p t li lf = Inr (r, lf')"
  shows "lf_line_buffer lf' = lf_line_buffer lf \<and> observed lf' = observed lf \<and>
         lf_logline_observer lf' = lf_logline_observer lf \<and>
         lf_logfile_observer lf' = lf_logfile_observer lf \<and>
         lf_format lf' = lf_format lf"
  using assms
  by (auto simp add: pp_match_def Let_def split: if_splits option.splits)


lemma process_prefix_keeps_format:
  assumes "process_prefix ex roots lf sbr li = Inr (r, lf', roots')"
    and "lf_format lf \<noteq> None"
  shows "lf_format lf' \<noteq> None"
proof -
  from assms(2) obtain fmt where fmt: "lf_format lf = Some fmt" by auto
  obtain found idx' fmt' where sc: "fmt_scan fmt (lf_index lf) li sbr = (found, idx', fmt')"
    by (cases "fmt_scan fmt (lf_index lf) li sbr")
  note ps = process_prefix_locked [OF fmt sc, of ex roots]
  show ?thesis
  proof (cases found)
    case SCAN_MATCH
    with assms ps obtain r2 where
      "pp_match (length (lf_index lf)) (if lf_index lf \<noteq> [] then ll_time (lf_index lf ! 0) else 0) li
         (lf\<lparr>lf_format := Some fmt', lf_index := idx'\<rparr>) = Inr (r2, lf')"
      by (auto simp add: process_prefix_def split: sum.splits)
    from pp_match_frame [OF this] show ?thesis by simp
  next
    case SCAN_NO_MATCH
    with assms ps show ?thesis
      by (auto simp add: process_prefix_def pp_no_match_def split: prod.splits)
  next
    case SCAN_INCOMPLETE
    with assms ps show ?thesis by (auto simp add: process_prefix_def)
  qed
qed
section \<open>The scan loop\<close>





lemma notify_fields [simp]:
  "lf_line_buffer (notify_logline evs lf) = lf_line_buffer lf"
  "lf_format (notify_logline evs lf) = lf_format lf"
  "lf_index (notify_logline evs lf) = lf_index lf"
  "lf_logline_observer (notify_logline evs lf) = lf_logline_observer lf"
  "lf_logfile_observer (notify_logline evs lf) = lf_logfile_observer lf"
  "lf_out_of_time_order_count (notify_logline evs lf) = lf_out_of_time_order_count lf"
  "lf_line_buffer (notify_logfile ev lf) = lf_line_buffer lf"
  "lf_format (notify_logfile ev lf) = lf_format lf"
  "lf_index (notify_logfile ev lf) = lf_index lf"
  "lf_logline_observer (notify_logfile ev lf) = lf_logline_observer lf"
  "lf_logfile_observer (notify_logfile ev lf) = lf_logfile_observer lf"
  "lf_out_of_time_order_count (notify_logfile ev lf) = lf_out_of_time_order_count lf"
  by (simp_all add: notify_logline_def notify_logfile_def)











section \<open>Termination of the loop, and the pass after a resort signal\<close>








section \<open>The line source of the scenarios\<close>


lemma line_buffer_file_becomes [simp]:
  "lf_line_buffer (file_becomes content mtime lf) = plain_file content mtime"
  by (simp add: file_becomes_def)




section \<open>Clock skew under a time-ordered format\<close>

text \<open>
  Claim C1, as amended. Let a format that declares itself time-ordered be bound, let its
  scan of a line report a match, and let the first entry that the scan added carry a
  timestamp that precedes the timestamp of the entry before it (the last entry present
  before the scan). Then \<open>process_prefix\<close> sets the timestamp and the sub-second value
  of every entry added by this scan to those of that earlier entry, sets the time-skew
  flag of each of them, leaves the earlier entries as the scan left them and adds one
  to the skew counter. The skew correction does not ask for a resort: the flag that
  \<open>process_prefix\<close> returns is set exactly when the scan changed the timestamp of the
  first entry of the index. For lines timestamped 10:00:02 and 10:00:01 that follow an
  indexed line which the rollback leaves in place, the second entry is clamped to
  10:00:02 with its skew flag set and the pass returns \<open>RR_NEW_LINES\<close>.
\<close>

theorem skew_correction:
  assumes "lf_format lf = Some fmt" and "lf_time_ordered fmt"
    and "fmt_scan fmt (lf_index lf) li sbr = (SCAN_MATCH, idx', fmt')"
    and "0 < length (lf_index lf)" and "length (lf_index lf) < length idx'"
    and "logline_lt (idx' ! length (lf_index lf)) (idx' ! (length (lf_index lf) - 1))"
  shows "process_prefix ex roots lf sbr li =
           Inr (ll_time (lf_index lf ! 0) \<noteq> ll_time (idx' ! 0),
                lf\<lparr>lf_format := Some fmt',
                   lf_out_of_time_order_count := lf_out_of_time_order_count lf + 1,
                   lf_index := skew_loop (length (lf_index lf))
                                 (set_back_valid_utf (li_valid_utf li) idx')\<rparr>,
                roots) \<and>
         length (skew_loop (length (lf_index lf)) (set_back_valid_utf (li_valid_utf li) idx')) =
           length idx' \<and>
         (\<forall>i<length idx'.
            length (lf_index lf) \<le> i \<longrightarrow>
              ll_time (skew_loop (length (lf_index lf))
                         (set_back_valid_utf (li_valid_utf li) idx') ! i) =
                ll_time (idx' ! (length (lf_index lf) - 1)) \<and>
              ll_millis (skew_loop (length (lf_index lf))
                           (set_back_valid_utf (li_valid_utf li) idx') ! i) =
                ll_millis (idx' ! (length (lf_index lf) - 1)) \<and>
              ll_time_skew (skew_loop (length (lf_index lf))
                              (set_back_valid_utf (li_valid_utf li) idx') ! i)) \<and>
         (\<forall>i<length (lf_index lf).
            skew_loop (length (lf_index lf)) (set_back_valid_utf (li_valid_utf li) idx') ! i =
              idx' ! i)"
proof -
  let ?p = "length (lf_index lf)"
  let ?sb = "set_back_valid_utf (li_valid_utf li) idx'"
  let ?lf1 = "lf\<lparr>lf_format := Some fmt', lf_index := idx'\<rparr>"
  from assms(4) have ne: "lf_index lf \<noteq> []" by auto
  from assms(2) fmt_scan_time_ordered [OF assms(3)] have o: "lf_time_ordered fmt'" by simp
  have sc: "pp_scan ex roots lf sbr li = Inr (SCAN_MATCH, ll_time (lf_index lf ! 0), ?lf1, roots)"
    using process_prefix_locked [OF assms(1) assms(3), of ex roots] ne by simp
  have "pp_match ?p (ll_time (lf_index lf ! 0)) li ?lf1 =
      Inr (ll_time (lf_index lf ! 0) \<noteq> ll_time (idx' ! 0),
           ?lf1\<lparr>lf_out_of_time_order_count := lf_out_of_time_order_count ?lf1 + 1,
                 lf_index := skew_loop ?p ?sb\<rparr>)"
    using pp_match_out_of_order [where lf = ?lf1 and fmt = fmt' and p = ?p and li = li
        and t = "ll_time (lf_index lf ! 0)"] assms(4-6) o
    by simp
  with sc have r: "process_prefix ex roots lf sbr li =
           Inr (ll_time (lf_index lf ! 0) \<noteq> ll_time (idx' ! 0),
                lf\<lparr>lf_format := Some fmt',
                   lf_out_of_time_order_count := lf_out_of_time_order_count lf + 1,
                   lf_index := skew_loop ?p ?sb\<rparr>, roots)"
    by (simp add: process_prefix_def)
  have le: "?p \<le> length ?sb" using assms(5) by simp
  have len: "length (skew_loop ?p ?sb) = length idx'"
    using length_skew_loop [OF assms(4) le] by simp
  have pm: "?p - 1 < length idx'" using assms(5) by simp
  have hi: "\<forall>i<length idx'. ?p \<le> i \<longrightarrow>
      ll_time (skew_loop ?p ?sb ! i) = ll_time (idx' ! (?p - 1)) \<and>
      ll_millis (skew_loop ?p ?sb ! i) = ll_millis (idx' ! (?p - 1)) \<and>
      ll_time_skew (skew_loop ?p ?sb ! i)"
    using nth_skew_loop [OF assms(4) le] set_back_valid_utf_keeps [OF pm, of "li_valid_utf li"]
    by simp
  have lo: "\<forall>i<?p. skew_loop ?p ?sb ! i = idx' ! i"
    using nth_skew_loop [OF assms(4) le] assms(5)
    by (simp add: nth_set_back_valid_utf)
  from r len hi lo show ?thesis by blast
qed

text \<open>
  The scenario: a file whose first two lines are indexed grows by a line timestamped
  10:00:02 and a line timestamped 10:00:01. The step for the last line, in the state
  in which the loop reaches it, and the three passes as a whole.
\<close>

theorem skew_correction_witness:
  "lf_index (before_line_b True) =
     [iso_entry 0 1672567200, iso_entry 22 1672567200, iso_entry 44 1672567202] \<and>
   (\<exists>fmt fmt'. lf_format (before_line_b True) = Some fmt \<and> lf_time_ordered fmt \<and>
      fmt_scan fmt (lf_index (before_line_b True)) (li_at 66 22) ''2023-01-01T10:00:01 b'' =
        (SCAN_MATCH,
         [iso_entry 0 1672567200, iso_entry 22 1672567200, iso_entry 44 1672567202,
          iso_entry 66 1672567201], fmt')) \<and>
   (\<exists>lf'. process_prefix test_externals [] (before_line_b True) ''2023-01-01T10:00:01 b''
            (li_at 66 22) = Inr (False, lf', []) \<and>
          map ll_time (lf_index lf') = [1672567200, 1672567200, 1672567202, 1672567202] \<and>
          map ll_time_skew (lf_index lf') = [False, False, False, True] \<and>
          lf_out_of_time_order_count lf' = 1) \<and>
   results (two_lines_appended True) = [RR_NEW_ORDER, RR_NEW_ORDER, RR_NEW_LINES] \<and>
   map ll_time (lf_index (file_of (two_lines_appended True))) =
     [1672567200, 1672567200, 1672567202, 1672567202] \<and>
   map ll_time_skew (lf_index (file_of (two_lines_appended True))) = [False, False, False, True]"
proof -
  let ?X = "before_line_b True"
  let ?sbr = "''2023-01-01T10:00:01 b''"
  let ?idx = "[iso_entry 0 1672567200, iso_entry 22 1672567200, iso_entry 44 1672567202,
          iso_entry 66 1672567201]"
  have ix: "lf_index ?X = [iso_entry 0 1672567200, iso_entry 22 1672567200, iso_entry 44 1672567202]"
    by code_simp
  have "(case lf_format ?X of
           None \<Rightarrow> None
         | Some f \<Rightarrow> Some (lf_time_ordered f,
             (case fmt_scan f (lf_index ?X) (li_at 66 22) ?sbr of (r, idx, f') \<Rightarrow> (r, idx)))) =
        Some (True, SCAN_MATCH, ?idx)"
    by code_simp
  then obtain fmt fmt' where f: "lf_format ?X = Some fmt" "lf_time_ordered fmt"
    and sc: "fmt_scan fmt (lf_index ?X) (li_at 66 22) ?sbr = (SCAN_MATCH, ?idx, fmt')"
    by (auto split: option.splits prod.splits)
  have c: "lf_out_of_time_order_count ?X = 0" by code_simp
  have sk: "map ll_time (skew_loop 3 (set_back_valid_utf True ?idx)) =
              [1672567200, 1672567200, 1672567202, 1672567202]"
    "map ll_time_skew (skew_loop 3 (set_back_valid_utf True ?idx)) = [False, False, False, True]"
    by code_simp+
  have p: "0 < length (lf_index ?X)" "length (lf_index ?X) < length ?idx"
    by (simp_all add: ix)
  have lt: "logline_lt (?idx ! length (lf_index ?X)) (?idx ! (length (lf_index ?X) - 1))"
    by (simp add: ix logline_lt_def iso_entry_def mk_logline_def)
  have t0: "ll_time (lf_index ?X ! 0) = ll_time (?idx ! 0)" by (simp add: ix)
  have pass: "results (two_lines_appended True) = [RR_NEW_ORDER, RR_NEW_ORDER, RR_NEW_LINES]"
    "map ll_time (lf_index (file_of (two_lines_appended True))) =
       [1672567200, 1672567200, 1672567202, 1672567202]"
    "map ll_time_skew (lf_index (file_of (two_lines_appended True))) = [False, False, False, True]"
    by code_simp+
  from skew_correction [OF f sc p lt, of test_externals "[]"] t0
  have "process_prefix test_externals [] ?X ?sbr (li_at 66 22) =
      Inr (False,
           ?X\<lparr>lf_format := Some fmt',
               lf_out_of_time_order_count := lf_out_of_time_order_count ?X + 1,
               lf_index := skew_loop (length (lf_index ?X))
                  (set_back_valid_utf (li_valid_utf (li_at 66 22)) ?idx)\<rparr>, [])"
    by simp
  then have "\<exists>lf'. process_prefix test_externals [] ?X ?sbr (li_at 66 22) = Inr (False, lf', []) \<and>
          map ll_time (lf_index lf') = [1672567200, 1672567200, 1672567202, 1672567202] \<and>
          map ll_time_skew (lf_index lf') = [False, False, False, True] \<and>
          lf_out_of_time_order_count lf' = 1"
    using sk c by (simp add: ix li_at_def numeral_3_eq_3)
  with ix f sc pass show ?thesis by blast
qed

text \<open>
  Claim C1 as stated fails where it says that the pass returns \<open>RR_NEW_LINES\<close>: with
  the two lines alone in the file, the first pass stops at the first line, on which
  the format locks in, and the second pass, which indexes both lines, starts from an
  index that the rollback has emptied. The second entry is clamped and flagged, but
  both passes return \<open>RR_NEW_ORDER\<close>, because the first entry's timestamp differs from
  the value 0 recorded before the scan.
\<close>

theorem two_lines_alone_new_order:
  "results (two_lines_polled True) = [RR_NEW_ORDER, RR_NEW_ORDER] \<and>
   map ll_offset (lf_index (file_of (two_lines_polled True))) = [0, 22] \<and>
   map ll_time (lf_index (file_of (two_lines_polled True))) = [1672567202, 1672567202] \<and>
   map ll_time_skew (lf_index (file_of (two_lines_polled True))) = [False, True] \<and>
   map_option lf_time_ordered (lf_format (file_of (two_lines_polled True))) = Some True"
  by code_simp

section \<open>An entry out of order under a format that is not time-ordered\<close>




section \<open>Format lock-in\<close>

text \<open>
  Claim C3. When a call of \<open>process_prefix\<close> on a file without a format leaves the
  file with a format bound (auto-detection has matched on this line), the content
  identity is the hash of the bytes of this line (the line without its terminator),
  and every entry of the index carries the timestamp and the sub-second value of the
  last entry, which are those of the last entry that the matching scan left: every
  entry buffered before the matched line has been overwritten with the matched line's
  timestamp. The matching scan is the scan of a root format whose name rule accepts
  the file name, and the bound format is the specialised copy of that format.
\<close>

theorem lock_in_backfills:
  assumes "lf_format lf = None"
    and "process_prefix ex roots lf sbr li = Inr (resort, lf', roots')"
    and "lf_format lf' \<noteq> None"
  shows "lf_content_id lf' = hash_string ex sbr \<and>
         lf_index lf' \<noteq> [] \<and>
         (\<forall>i<length (lf_index lf').
            ll_time (lf_index lf' ! i) = ll_time (last (lf_index lf')) \<and>
            ll_millis (lf_index lf' ! i) = ll_millis (last (lf_index lf'))) \<and>
         (\<exists>f idx0 idx' f'.
            f \<in> set roots \<and> match_name f (lf_filename lf) \<and>
            fmt_scan (set_format_base_time lf (fmt_clear f)) idx0 li sbr = (SCAN_MATCH, idx', f') \<and>
            idx' \<noteq> [] \<and> length (lf_index lf') = length idx' \<and>
            ll_time (last (lf_index lf')) = ll_time (last idx') \<and>
            ll_millis (last (lf_index lf')) = ll_millis (last idx') \<and>
            lf_format lf' = Some (set_format_base_time lf (specialized f')))"
proof -
  obtain found pt lf1 roots1 where
    sc: "pp_scan ex roots lf sbr li = Inr (found, pt, lf1, roots1)"
    using assms(2) by (auto simp add: process_prefix_def split: sum.splits)
  have fr: "found = SCAN_MATCH"
  proof (rule ccontr)
    assume nm: "found \<noteq> SCAN_MATCH"
    have "lf_format lf1 = None"
    proof (cases "loo_detect_format (lf_options lf) \<and> length (lf_index lf) < MAX_UNRECOGNIZED_LINES")
      case True
      with sc assms(1) obtain fs' where
        t: "try_formats ex lf sbr li roots SCAN_NO_MATCH = Inr (found, lf1, fs')"
        by (auto simp add: pp_scan_def split: sum.splits)
      from try_formats_no_match [OF t nm] assms(1) show ?thesis by simp
    next
      case False
      with sc assms(1) show ?thesis by (auto simp add: pp_scan_def)
    qed
    with sc nm assms(2,3) show False
      by (cases found) (auto simp add: process_prefix_def pp_no_match_def split: prod.splits)
  qed
  from sc fr assms(1) obtain fs' where
    t: "try_formats ex lf sbr li roots SCAN_NO_MATCH = Inr (SCAN_MATCH, lf1, fs')"
    by (auto simp add: pp_scan_def split: sum.splits if_splits)
  from try_formats_match [OF t] obtain f idx0 idx' f' where
    m: "f \<in> set roots" "match_name f (lf_filename lf)"
      "fmt_scan (set_format_base_time lf (fmt_clear f)) idx0 li sbr = (SCAN_MATCH, idx', f')"
      "idx' \<noteq> []"
      "lf1 = lf\<lparr>lf_content_id := hash_string ex sbr,
                lf_format := Some (set_format_base_time lf (specialized f')),
                lf_index := backfill idx'\<rparr>"
    by auto
  from m(5) have i1: "lf_index lf1 = backfill idx'" by simp
  let ?ix = "set_back_valid_utf (li_valid_utf li) (backfill idx')"
  from assms(2) sc fr pp_match_after_backfill [OF m(4) i1, of "length (lf_index lf)" pt li]
  have lf': "lf' = lf1\<lparr>lf_index := ?ix\<rparr>"
    by (simp add: process_prefix_def)
  have ix: "lf_index lf' = ?ix" using lf' by simp
  have ne: "?ix \<noteq> []" using m(4) by simp
  have len: "length ?ix = length idx'" by simp
  from m(4) have "length idx' - 1 < length idx'" by simp
  from backfilled_times [OF this, of "li_valid_utf li"]
  have la: "ll_time (last ?ix) = ll_time (last idx') \<and> ll_millis (last ?ix) = ll_millis (last idx')"
    by (simp add: last_conv_nth [OF ne])
  have tm: "\<forall>i<length ?ix. ll_time (?ix ! i) = ll_time (last ?ix) \<and>
      ll_millis (?ix ! i) = ll_millis (last ?ix)"
    using backfilled_times [of _ idx' "li_valid_utf li"] la by simp
  have c: "lf_content_id lf' = hash_string ex sbr" using lf' m(5) by simp
  have f: "lf_format lf' = Some (set_format_base_time lf (specialized f'))"
    using lf' m(5) by simp
  have "\<exists>f idx0 idx' f'.
            f \<in> set roots \<and> match_name f (lf_filename lf) \<and>
            fmt_scan (set_format_base_time lf (fmt_clear f)) idx0 li sbr = (SCAN_MATCH, idx', f') \<and>
            idx' \<noteq> [] \<and> length (lf_index lf') = length idx' \<and>
            ll_time (last (lf_index lf')) = ll_time (last idx') \<and>
            ll_millis (last (lf_index lf')) = ll_millis (last idx') \<and>
            lf_format lf' = Some (set_format_base_time lf (specialized f'))"
    using m(1-4) la f unfolding ix
    by - (rule exI [where x = f], rule exI [where x = idx0],
          rule exI [where x = idx'], rule exI [where x = f'], simp)
  with c ne tm show ?thesis unfolding ix by blast
qed

text \<open>
  The backfill scenario: the file \<^verbatim>\<open>"garbage\ngarbage2\n2023-01-01T10:00:00 INFO start\n"\<close>.
  The step for its third line, in a state with the two placeholder entries, and the
  one rebuild of the file as a whole: all three entries report 2023-01-01T10:00:00
  (\<open>1672567200\<close>) and the content identity is the hash of the third line, no longer the
  hash of the file name.
\<close>

theorem lock_in_backfills_witness:
  "lf_format before_start_line = None \<and>
   map ll_time (lf_index before_start_line) = [0, 0] \<and>
   (\<exists>resort lf' roots'.
      process_prefix test_externals [iso_format True] before_start_line
        ''2023-01-01T10:00:00 INFO start'' (li_at 17 31) = Inr (resort, lf', roots') \<and>
      lf_format lf' \<noteq> None \<and>
      lf_content_id lf' = hash_string test_externals ''2023-01-01T10:00:00 INFO start'' \<and>
      map ll_time (lf_index lf') = [1672567200, 1672567200, 1672567200] \<and>
      (\<forall>i<length (lf_index lf').
         ll_time (lf_index lf' ! i) = ll_time (last (lf_index lf')) \<and>
         ll_millis (lf_index lf' ! i) = ll_millis (last (lf_index lf')))) \<and>
   results backfilled = [RR_NEW_ORDER] \<and>
   map ll_time (lf_index (file_of backfilled)) = [1672567200, 1672567200, 1672567200] \<and>
   lf_content_id (file_of backfilled) = hash_string test_externals ''2023-01-01T10:00:00 INFO start'' \<and>
   lf_content_id (fresh_logfile True backfill_file 7) = hash_string test_externals ''a.log'' \<and>
   parse_iso ''2023-01-01T10:00:00 INFO start'' = Some 1672567200"
proof -
  let ?X = "before_start_line"
  let ?sbr = "''2023-01-01T10:00:00 INFO start''"
  let ?li = "li_at 17 31"
  let ?R = "[iso_format True]"
  have "Option.is_none (lf_format ?X)" by code_simp
  then have n: "lf_format ?X = None" by (simp add: Option.is_none_def)
  have t: "map ll_time (lf_index ?X) = [0, 0]" by code_simp
  have "(case process_prefix test_externals ?R ?X ?sbr ?li of
           Inr (resort, lf', roots') \<Rightarrow>
             Some (Option.is_none (lf_format lf'), map ll_time (lf_index lf'))
         | _ \<Rightarrow> None) = Some (False, [1672567200, 1672567200, 1672567200])"
    by code_simp
  then obtain resort lf' roots' where
    p: "process_prefix test_externals ?R ?X ?sbr ?li = Inr (resort, lf', roots')"
    and b: "lf_format lf' \<noteq> None"
    and tm: "map ll_time (lf_index lf') = [1672567200, 1672567200, 1672567200]"
    by (auto simp add: Option.is_none_def split: sum.splits)
  have pass: "results backfilled = [RR_NEW_ORDER]"
    "map ll_time (lf_index (file_of backfilled)) = [1672567200, 1672567200, 1672567200]"
    "lf_content_id (file_of backfilled) = hash_string test_externals ''2023-01-01T10:00:00 INFO start''"
    "lf_content_id (fresh_logfile True backfill_file 7) = hash_string test_externals ''a.log''"
    "parse_iso ''2023-01-01T10:00:00 INFO start'' = Some 1672567200"
    by code_simp+
  note th = lock_in_backfills [OF n p b]
  from th have c: "lf_content_id lf' = hash_string test_externals ?sbr" by blast
  from th have a: "\<forall>i<length (lf_index lf').
         ll_time (lf_index lf' ! i) = ll_time (last (lf_index lf')) \<and>
         ll_millis (lf_index lf' ! i) = ll_millis (last (lf_index lf'))"
    by blast
  from p b c tm a have "\<exists>resort lf' roots'.
      process_prefix test_externals [iso_format True] before_start_line
        ''2023-01-01T10:00:00 INFO start'' (li_at 17 31) = Inr (resort, lf', roots') \<and>
      lf_format lf' \<noteq> None \<and>
      lf_content_id lf' = hash_string test_externals ''2023-01-01T10:00:00 INFO start'' \<and>
      map ll_time (lf_index lf') = [1672567200, 1672567200, 1672567200] \<and>
      (\<forall>i<length (lf_index lf').
         ll_time (lf_index lf' ! i) = ll_time (last (lf_index lf')) \<and>
         ll_millis (lf_index lf' ! i) = ll_millis (last (lf_index lf')))"
    by (intro exI conjI)
  with n t pass show ?thesis by (intro conjI)
qed
section \<open>The rollback at the start of a pass\<close>

lemma drop_last_line_group:
  assumes "ll_sub_offset h = 0" and "\<forall>t \<in> set tail. ll_sub_offset t \<noteq> 0"
  shows "drop_last_line (pre @ h # tail) k = Inr (pre, k + Suc (length tail))"
  using assms(2)
proof (induction tail arbitrary: k rule: rev_induct)
  case Nil
  with assms(1) show ?case by (subst drop_last_line.simps) simp
next
  case (snoc t tail)
  then have t: "ll_sub_offset t \<noteq> 0" and r: "\<forall>t \<in> set tail. ll_sub_offset t \<noteq> 0" by simp_all
  have "drop_last_line (pre @ h # tail @ [t]) k = drop_last_line (pre @ h # tail) (k + 1)"
    using t by (subst drop_last_line.simps) (simp add: butlast_append)
  with snoc.IH [OF r, of "k + 1"] show ?case by simp
qed

lemma rollback_group:
  assumes "lf_index lf = pre @ h # tail"
    and "ll_sub_offset h = 0" and "\<forall>t \<in> set tail. ll_sub_offset t \<noteq> 0"
  shows "rollback lf =
           (if pre = [] then
              Inr (Running (ll_offset (last (h # tail)),
                     notify_logline [Logline_restart (Suc (length tail))] (lf\<lparr>lf_index := pre\<rparr>)))
            else
              case lb_read_range (lf_line_buffer lf)
                     \<lparr>fr_offset = ll_offset (last pre),
                      fr_size = lf_index_size lf - ll_offset (last pre)\<rparr> of
                Throws \<Rightarrow> Inl Line_buffer_error
              | Err msg \<Rightarrow> Inr (Returned (RR_INVALID, close (lf\<lparr>lf_index := pre\<rparr>)))
              | Ok sbr \<Rightarrow>
                  Inr (Running (ll_offset (last (h # tail)),
                         notify_logline [Logline_restart (Suc (length tail))]
                           (lf\<lparr>lf_index := pre\<rparr>))))"
proof -
  from drop_last_line_group [OF assms(2,3), of pre 0]
  have d: "drop_last_line (lf_index lf) 0 = Inr (pre, Suc (length tail))"
    by (simp add: assms(1))
  have l: "last (lf_index lf) = last (h # tail)" by (simp add: assms(1))
  have ne: "lf_index lf \<noteq> []" by (simp add: assms(1))
  show ?thesis
    unfolding rollback_def using ne d l
    by (simp add: Let_def split: io_result.splits)
qed

text \<open>
  Claim C4, as amended. Let the index end in a logical-line group: an entry with
  sub-offset 0 followed by entries with non-zero sub-offsets only, and let the pass
  find new data (the file status is read, the file has not been overwritten, and data
  is available past the indexed size). The pass removes exactly that group and leaves
  the entries before it untouched. If entries remain, the tail is read again; when
  that read fails the instance is closed and the pass returns \<open>RR_INVALID\<close> without
  any call on the line observer. Otherwise (no entry remains, or the read succeeds)
  a registered line observer receives one restart call, with the number of rows
  dropped, and the scan resumes at the offset of the last dropped row.
\<close>

theorem rollback_drops_last_group:
  assumes "lf_index lf0 = pre @ h # tail"
    and "ll_sub_offset h = 0" and "\<forall>t \<in> set tail. ll_sub_offset t \<noteq> 0"
    and "lb_fstat (lf_line_buffer lf0) = Some st"
    and "\<not> st_size st < st_size (lf_stat lf0)"
    and "st_size (lf_stat lf0) \<noteq> st_size st \<or> st_mtime (lf_stat lf0) = st_mtime st"
    and "lb_is_data_available (lf_line_buffer lf0) (lf_index_size lf0) (st_size st)"
  shows "let lf = lf0\<lparr>la_polls := la_polls lf0 + 1, la_reads := la_reads lf0 + 1,
                       lf_index := pre\<rparr>;
             restarted = notify_logline [Logline_restart (Suc (length tail))] lf;
             scan = finish_pass st
                      (scan_loop fuel ex st (lf_format lf0 \<noteq> None) roots
                         (restarted\<lparr>lf_sort_needed := False\<rparr>)
                         \<lparr>fr_offset = ll_offset (last (h # tail)), fr_size = 0\<rparr>
                         (lf_sort_needed lf0))
         in rebuild_index fuel ex roots lf0 =
              (if pre = [] then scan
               else
                 case lb_read_range (lf_line_buffer lf0)
                        \<lparr>fr_offset = ll_offset (last pre),
                         fr_size = lf_index_size lf0 - ll_offset (last pre)\<rparr> of
                   Throws \<Rightarrow> Some (Inl Line_buffer_error)
                 | Err msg \<Rightarrow> Some (Inr (RR_INVALID, close lf, roots))
                 | Ok sbr \<Rightarrow> scan) \<and>
            lf_index restarted = pre \<and>
            observed restarted =
              (if lf_logline_observer lf0 then observed lf0 @ [Logline_restart (Suc (length tail))]
               else observed lf0) \<and>
            observed (close lf) = observed lf0"
proof -
  let ?lfp = "lf0\<lparr>la_polls := la_polls lf0 + 1\<rparr>"
  let ?lf1 = "?lfp\<lparr>la_reads := la_reads ?lfp + 1\<rparr>"
  let ?rr = "lb_read_range (lf_line_buffer lf0)
               \<lparr>fr_offset = ll_offset (last pre),
                fr_size = lf_index_size lf0 - ll_offset (last pre)\<rparr>"
  have i: "lf_index ?lf1 = pre @ h # tail" by (simp add: assms(1))
  have rb: "rollback ?lf1 =
      (if pre = [] then
         Inr (Running (ll_offset (last (h # tail)),
                notify_logline [Logline_restart (Suc (length tail))] (?lf1\<lparr>lf_index := pre\<rparr>)))
       else
         case ?rr of
           Throws \<Rightarrow> Inl Line_buffer_error
         | Err msg \<Rightarrow> Inr (Returned (RR_INVALID, close (?lf1\<lparr>lf_index := pre\<rparr>)))
         | Ok sbr \<Rightarrow>
             Inr (Running (ll_offset (last (h # tail)),
                    notify_logline [Logline_restart (Suc (length tail))]
                      (?lf1\<lparr>lf_index := pre\<rparr>))))"
    using rollback_group [OF i assms(2,3)] by simp
  have p: "rebuild_index fuel ex roots lf0 = rebuild_pass fuel ex st roots ?lfp"
    using assms(4-7) by (auto simp add: rebuild_index_def Let_def)
  have e: "?lf1\<lparr>lf_index := pre\<rparr> =
           lf0\<lparr>la_polls := la_polls lf0 + 1, la_reads := la_reads lf0 + 1, lf_index := pre\<rparr>"
    by simp
  have f: "(lf_format ?lf1 \<noteq> None) = (lf_format lf0 \<noteq> None)"
    by simp
  have q: "rebuild_index fuel ex roots lf0 =
      (case rollback ?lf1 of
         Inl e \<Rightarrow> Some (Inl e)
       | Inr (Returned (r, lf2)) \<Rightarrow> Some (Inr (r, lf2, roots))
       | Inr (Running (off, lf2)) \<Rightarrow>
           finish_pass st
             (scan_loop fuel ex st (lf_format lf0 \<noteq> None) roots (lf2\<lparr>lf_sort_needed := False\<rparr>)
                \<lparr>fr_offset = off, fr_size = 0\<rparr> (lf_sort_needed lf2)))"
    unfolding p rebuild_pass_def Let_def f by (rule refl)
  have s: "lf_sort_needed (notify_logline evs (?lf1\<lparr>lf_index := pre\<rparr>)) = lf_sort_needed lf0" for evs
    by (simp add: notify_logline_def)
  show ?thesis
    unfolding q rb Let_def e [symmetric]
    by (cases "pre = []"; cases ?rr) (simp_all add: s, simp_all add: notify_logline_def close_def)
qed

text \<open>
  The scenario: two indexed lines and a continuation row in the last group, a line
  observer registered, the file grown by a line. The pass drops the two rows of the
  last group, the observer is told of a restart with 2, and the scan resumes at offset
  22. Without the continuation row, the whole pass makes the calls restart (1), two
  new lines, end of pass.
\<close>

theorem rollback_drops_last_group_witness:
  "lf_index (with_sub_row (file_of observed_growth)) =
     [iso_entry 0 1672567200] @ iso_entry 22 1672567200 #
     [(iso_entry 22 1672567200)\<lparr>ll_sub_offset := 1\<rparr>] \<and>
   lf_logline_observer (with_sub_row (file_of observed_growth)) \<and>
   observed (with_sub_row (file_of observed_growth)) = [] \<and>
   (\<exists>lf'. rebuild_index 20 test_externals [iso_format True]
            (with_sub_row (file_of observed_growth)) =
          finish_pass (test_stat (line_x @ line_y @ line_a) 8)
            (scan_loop 20 test_externals (test_stat (line_x @ line_y @ line_a) 8)
               (lf_format (with_sub_row (file_of observed_growth)) \<noteq> None)
               [iso_format True] (lf'\<lparr>lf_sort_needed := False\<rparr>)
               \<lparr>fr_offset = 22, fr_size = 0\<rparr>
               (lf_sort_needed (with_sub_row (file_of observed_growth)))) \<and>
          lf_index lf' = [iso_entry 0 1672567200] \<and>
          observed lf' = [Logline_restart 2]) \<and>
   results (next_pass observed_growth) = [RR_NEW_ORDER, RR_NEW_ORDER, RR_NEW_LINES] \<and>
   observed (file_of (next_pass observed_growth)) =
     [Logline_restart 1, Logline_new_line 1 ''2023-01-01T10:00:00 y'',
      Logline_new_line 2 ''2023-01-01T10:00:02 a'', Logline_eof]"
proof -
  let ?X = "with_sub_row (file_of observed_growth)"
  let ?st = "test_stat (line_x @ line_y @ line_a) 8"
  let ?pre = "[iso_entry 0 1672567200]"
  let ?h = "iso_entry 22 1672567200"
  let ?tail = "[(iso_entry 22 1672567200)\<lparr>ll_sub_offset := 1\<rparr>]"
  let ?lf = "?X\<lparr>la_polls := la_polls ?X + 1, la_reads := la_reads ?X + 1, lf_index := ?pre\<rparr>"
  let ?N = "notify_logline [Logline_restart (Suc (length ?tail))] ?lf"
  have ix: "lf_index ?X = ?pre @ ?h # ?tail" by code_simp
  have h0: "ll_sub_offset ?h = 0" by code_simp
  have t0: "\<forall>t \<in> set ?tail. ll_sub_offset t \<noteq> 0" by simp
  have o: "lf_logline_observer ?X" "observed ?X = []" by code_simp+
  have fs: "lb_fstat (lf_line_buffer ?X) = Some ?st" by code_simp
  have ow: "\<not> st_size ?st < st_size (lf_stat ?X)"
    "st_size (lf_stat ?X) \<noteq> st_size ?st \<or> st_mtime (lf_stat ?X) = st_mtime ?st"
    by code_simp+
  have da: "lb_is_data_available (lf_line_buffer ?X) (lf_index_size ?X) (st_size ?st)"
    by code_simp
  have rd: "lb_read_range (lf_line_buffer ?X)
              \<lparr>fr_offset = ll_offset (last ?pre), fr_size = lf_index_size ?X - ll_offset (last ?pre)\<rparr> =
            Ok (line_x @ line_y)"
    by code_simp
  have la: "ll_offset (last (?h # ?tail)) = 22" by code_simp
  have pass: "results (next_pass observed_growth) = [RR_NEW_ORDER, RR_NEW_ORDER, RR_NEW_LINES]"
    "observed (file_of (next_pass observed_growth)) =
     [Logline_restart 1, Logline_new_line 1 ''2023-01-01T10:00:00 y'',
      Logline_new_line 2 ''2023-01-01T10:00:02 a'', Logline_eof]"
    by code_simp+
  note th = rollback_drops_last_group [OF ix h0 t0 fs ow da,
      where fuel = 20 and ex = test_externals and roots = "[iso_format True]", unfolded Let_def]
  from th have r0: "rebuild_index 20 test_externals [iso_format True] ?X =
      (if ?pre = [] then
         finish_pass ?st
           (scan_loop 20 test_externals ?st (lf_format ?X \<noteq> None) [iso_format True]
              (?N\<lparr>lf_sort_needed := False\<rparr>)
              \<lparr>fr_offset = ll_offset (last (?h # ?tail)), fr_size = 0\<rparr> (lf_sort_needed ?X))
       else
         case lb_read_range (lf_line_buffer ?X)
                \<lparr>fr_offset = ll_offset (last ?pre),
                 fr_size = lf_index_size ?X - ll_offset (last ?pre)\<rparr> of
           Throws \<Rightarrow> Some (Inl Line_buffer_error)
         | Err msg \<Rightarrow> Some (Inr (RR_INVALID, close ?lf, [iso_format True]))
         | Ok sbr \<Rightarrow>
             finish_pass ?st
               (scan_loop 20 test_externals ?st (lf_format ?X \<noteq> None) [iso_format True]
                  (?N\<lparr>lf_sort_needed := False\<rparr>)
                  \<lparr>fr_offset = ll_offset (last (?h # ?tail)), fr_size = 0\<rparr> (lf_sort_needed ?X)))"
    by (rule conjunct1)
  have r: "rebuild_index 20 test_externals [iso_format True] ?X =
      finish_pass ?st
        (scan_loop 20 test_externals ?st (lf_format ?X \<noteq> None) [iso_format True]
           (?N\<lparr>lf_sort_needed := False\<rparr>) \<lparr>fr_offset = 22, fr_size = 0\<rparr> (lf_sort_needed ?X))"
    unfolding r0 rd la by simp
  from th have li: "lf_index ?N = ?pre"
    by (rule conjunct1 [OF conjunct2])
  from th have "observed ?N =
      (if lf_logline_observer ?X then observed ?X @ [Logline_restart (Suc (length ?tail))]
       else observed ?X)"
    by (rule conjunct1 [OF conjunct2 [OF conjunct2]])
  with o have ob: "observed ?N = [Logline_restart 2]"
    by simp
  from r li ob have "\<exists>lf'. rebuild_index 20 test_externals [iso_format True] ?X =
          finish_pass ?st
            (scan_loop 20 test_externals ?st (lf_format ?X \<noteq> None) [iso_format True]
               (lf'\<lparr>lf_sort_needed := False\<rparr>) \<lparr>fr_offset = 22, fr_size = 0\<rparr>
               (lf_sort_needed ?X)) \<and>
          lf_index lf' = ?pre \<and> observed lf' = [Logline_restart 2]"
    by (intro exI conjI)
  with ix o pass show ?thesis by (intro conjI)
qed

text \<open>
  Claim C4 as stated fails where it says that the restart callback is invoked: the
  file with two indexed lines has a line observer registered and grows, and the read
  that re-validates the tail fails. The pass has dropped one row, returns
  \<open>RR_INVALID\<close>, and has made no call on the observer.
\<close>

theorem rollback_without_restart:
  "results rollback_then_read_failure = [RR_NEW_ORDER, RR_NEW_ORDER, RR_INVALID] \<and>
   map ll_offset (lf_index (file_of observed_growth)) = [0, 22] \<and>
   lf_logline_observer (file_of observed_growth) \<and>
   lf_logline_observer (file_of rollback_then_read_failure) \<and>
   map ll_offset (lf_index (file_of rollback_then_read_failure)) = [0] \<and>
   observed (file_of rollback_then_read_failure) = [] \<and>
   lf_is_closed (file_of rollback_then_read_failure)"
  by code_simp

section \<open>A rebuild of an overwritten file\<close>

text \<open>
  Claim C5, as amended. If the size that \<open>fstat\<close> reports is smaller than the size of
  the stored snapshot, or the size is unchanged and the modification time differs,
  \<open>rebuild_index\<close> closes the instance and returns \<open>RR_NO_NEW_LINES\<close>; apart from the
  poll counter and the closed flag the state, and so the index, is what it was. If the
  instance was opened by path and the file at that path now has the smaller size,
  \<open>exists\<close> is false afterwards.
\<close>

theorem rebuild_overwritten:
  assumes "lb_fstat (lf_line_buffer lf) = Some st"
    and "st_size st < st_size (lf_stat lf) \<or>
         (st_size (lf_stat lf) = st_size st \<and> st_mtime (lf_stat lf) \<noteq> st_mtime st)"
  shows "rebuild_index fuel ex roots lf =
           Some (Inr (RR_NO_NEW_LINES,
                      lf\<lparr>la_polls := la_polls lf + 1, lf_is_closed := True\<rparr>, roots)) \<and>
         (lf_valid_filename lf \<and> st_size st < st_size (lf_stat lf) \<and>
          fs (lf_filename lf) = Some st \<longrightarrow>
            \<not> logfile_exists fs (lf\<lparr>la_polls := la_polls lf + 1, lf_is_closed := True\<rparr>))"
  using assms by (auto simp add: rebuild_index_def Let_def close_def logfile_exists_def)

text \<open>
  The scenario: a file of 100 bytes, opened by path, is indexed and then truncated to
  50 bytes.
\<close>

theorem rebuild_overwritten_witness:
  "result_of (rebuild_index 20 test_externals [] (fresh_logfile True file100 7)) = Some RR_NEW_LINES \<and>
   lf_index_size (indexed100 True) = 100 \<and>
   st_size (lf_stat (indexed100 True)) = 100 \<and>
   st_size (test_stat (take 50 file100) 8) = 50 \<and>
   lf_valid_filename (indexed100 True) \<and>
   rebuild_index 20 test_externals [] (file_becomes (take 50 file100) 8 (indexed100 True)) =
     Some (Inr (RR_NO_NEW_LINES,
                (file_becomes (take 50 file100) 8 (indexed100 True))
                  \<lparr>la_polls := la_polls (file_becomes (take 50 file100) 8 (indexed100 True)) + 1,
                   lf_is_closed := True\<rparr>, [])) \<and>
   \<not> logfile_exists (\<lambda>p. Some (test_stat (take 50 file100) 8))
       ((file_becomes (take 50 file100) 8 (indexed100 True))
          \<lparr>la_polls := la_polls (file_becomes (take 50 file100) 8 (indexed100 True)) + 1,
           lf_is_closed := True\<rparr>)"
proof -
  let ?lf = "file_becomes (take 50 file100) 8 (indexed100 True)"
  let ?st = "test_stat (take 50 file100) 8"
  have r: "result_of (rebuild_index 20 test_externals [] (fresh_logfile True file100 7)) = Some RR_NEW_LINES"
    by code_simp
  have f: "lf_index_size (indexed100 True) = 100" "st_size (lf_stat (indexed100 True)) = 100"
    "st_size ?st = 50" "lf_valid_filename (indexed100 True)"
    by code_simp+
  have h1: "lb_fstat (lf_line_buffer ?lf) = Some ?st" by code_simp
  have lt: "st_size ?st < st_size (lf_stat ?lf)" by code_simp
  then have h2: "st_size ?st < st_size (lf_stat ?lf) \<or>
      (st_size (lf_stat ?lf) = st_size ?st \<and> st_mtime (lf_stat ?lf) \<noteq> st_mtime ?st)" ..
  have v: "lf_valid_filename ?lf" by code_simp
  from rebuild_overwritten [OF h1 h2, of 20 test_externals "[]" "\<lambda>p. Some ?st"] r f lt v
  show ?thesis by simp
qed

text \<open>
  Claim C5 as stated fails for an instance that adopted an open handle: for it
  \<open>exists\<close> answers true whatever has become of the file. The same scenario, with the
  instance built from a descriptor.
\<close>

theorem adopted_handle_exists_after_truncation:
  "result_of (rebuild_index 20 test_externals [] (fresh_logfile False file100 7)) = Some RR_NEW_LINES \<and>
   lf_index_size (indexed100 False) = 100 \<and>
   length (take 50 file100) = 50 \<and>
   result_of (rebuild_index 20 test_externals []
                (file_becomes (take 50 file100) 8 (indexed100 False))) = Some RR_NO_NEW_LINES \<and>
   lf_is_closed (file_after (rebuild_index 20 test_externals []
                   (file_becomes (take 50 file100) 8 (indexed100 False))) (indexed100 False)) \<and>
   logfile_exists (\<lambda>p. Some (test_stat (take 50 file100) 8))
     (file_after (rebuild_index 20 test_externals []
                   (file_becomes (take 50 file100) 8 (indexed100 False))) (indexed100 False))"
  by code_simp

section \<open>A rebuild that finds no new data\<close>

text \<open>
  Claim C6. If the file is not judged overwritten and the line source reports no
  bytes beyond the indexed extent, \<open>rebuild_index\<close> returns \<open>RR_NO_NEW_LINES\<close> and
  leaves the index as it is; it still sets the cached index time to the line source's
  file time, or to the modification time of the stat result when the line source
  reports none, and leaves the out-of-order counter at zero. A second call under the
  same conditions returns \<open>RR_NO_NEW_LINES\<close> again, with the same index.
\<close>

theorem rebuild_without_new_data:
  assumes "lb_fstat (lf_line_buffer lf) = Some st"
    and "\<not> st_size st < st_size (lf_stat lf)"
    and "st_size (lf_stat lf) \<noteq> st_size st \<or> st_mtime (lf_stat lf) = st_mtime st"
    and "\<not> lb_is_data_available (lf_line_buffer lf) (lf_index_size lf) (st_size st)"
  shows "let lf1 = rebuild_tail st (lf\<lparr>la_polls := la_polls lf + 1\<rparr>);
             lf2 = rebuild_tail st (lf1\<lparr>la_polls := la_polls lf1 + 1\<rparr>)
         in rebuild_index fuel ex roots lf = Some (Inr (RR_NO_NEW_LINES, lf1, roots)) \<and>
            rebuild_index fuel ex roots lf1 = Some (Inr (RR_NO_NEW_LINES, lf2, roots)) \<and>
            lf_index lf1 = lf_index lf \<and> lf_index lf2 = lf_index lf \<and>
            lf_index_time lf1 =
              (if lb_get_file_time (lf_line_buffer lf) = 0 then st_mtime st
               else lb_get_file_time (lf_line_buffer lf)) \<and>
            lf_out_of_time_order_count lf1 = 0"
  using assms by (auto simp add: rebuild_index_def Let_def)

text \<open>
  The scenario: a file of 100 bytes is indexed by a first pass; two more calls without
  a change of the file both return \<open>RR_NO_NEW_LINES\<close> and keep the index.
\<close>

theorem rebuild_without_new_data_witness:
  "result_of (rebuild_index 20 test_externals [] (fresh_logfile True file100 7)) = Some RR_NEW_LINES \<and>
   lb_fstat (lf_line_buffer (indexed100 True)) = Some (test_stat file100 7) \<and>
   lf_stat (indexed100 True) = test_stat file100 7 \<and>
   \<not> lb_is_data_available (lf_line_buffer (indexed100 True)) (lf_index_size (indexed100 True)) 100 \<and>
   (let lf1 = rebuild_tail (test_stat file100 7)
                ((indexed100 True)\<lparr>la_polls := la_polls (indexed100 True) + 1\<rparr>);
        lf2 = rebuild_tail (test_stat file100 7) (lf1\<lparr>la_polls := la_polls lf1 + 1\<rparr>)
    in rebuild_index 0 test_externals [] (indexed100 True) = Some (Inr (RR_NO_NEW_LINES, lf1, [])) \<and>
       rebuild_index 0 test_externals [] lf1 = Some (Inr (RR_NO_NEW_LINES, lf2, [])) \<and>
       lf_index lf1 = lf_index (indexed100 True) \<and> lf_index lf2 = lf_index (indexed100 True) \<and>
       lf_index_time lf1 = 7 \<and> lf_out_of_time_order_count lf1 = 0)"
proof -
  have r: "result_of (rebuild_index 20 test_externals [] (fresh_logfile True file100 7)) = Some RR_NEW_LINES"
    by code_simp
  have h1: "lb_fstat (lf_line_buffer (indexed100 True)) = Some (test_stat file100 7)"
    by code_simp
  have s: "lf_stat (indexed100 True) = test_stat file100 7"
    by code_simp
  have h2: "\<not> st_size (test_stat file100 7) < st_size (lf_stat (indexed100 True))"
    by code_simp
  have h3: "st_size (lf_stat (indexed100 True)) \<noteq> st_size (test_stat file100 7) \<or>
            st_mtime (lf_stat (indexed100 True)) = st_mtime (test_stat file100 7)"
    by code_simp
  have sz: "st_size (test_stat file100 7) = 100" by code_simp
  have mt: "st_mtime (test_stat file100 7) = 7" by code_simp
  have ft: "lb_get_file_time (lf_line_buffer (indexed100 True)) = 0" by code_simp
  have h4: "\<not> lb_is_data_available (lf_line_buffer (indexed100 True))
               (lf_index_size (indexed100 True)) (st_size (test_stat file100 7))"
    by code_simp
  from rebuild_without_new_data [OF h1 h2 h3 h4, of 0 test_externals "[]"] r h1 s h4 sz mt ft
  show ?thesis by (simp add: Let_def)
qed

section \<open>A line that no format recognises\<close>

text \<open>
  Claim C7, as amended. For every line that the scan stage classifies as no match,
  \<open>process_prefix\<close> appends exactly one entry to the index as the scan left it and does
  not ask for a resort. The entry starts at the line's offset; if the index is not
  empty it inherits the timestamp, sub-second value, module id and operation id of the
  last entry, and its level is the last entry's level with the continued flag when a
  format is bound, and unknown when no format is bound; if the index is empty it takes
  the cached index time, zero for the other values, and the unknown level.
\<close>

theorem no_match_appends_entry:
  assumes "pp_scan ex roots lf sbr li = Inr (SCAN_NO_MATCH, prescan_time, lf1, roots1)"
  shows "\<exists>e. process_prefix ex roots lf sbr li =
               Inr (False, lf1\<lparr>lf_index := lf_index lf1 @ [e]\<rparr>, roots1) \<and>
             ll_offset e = fr_offset (li_file_range li) \<and> ll_sub_offset e = 0 \<and>
             ll_valid_utf e = li_valid_utf li \<and>
             ll_time e = (if lf_index lf1 = [] then lf_index_time lf1 else ll_time (last (lf_index lf1))) \<and>
             ll_millis e = (if lf_index lf1 = [] then 0 else ll_millis (last (lf_index lf1))) \<and>
             ll_module_id e = (if lf_index lf1 = [] then 0 else ll_module_id (last (lf_index lf1))) \<and>
             ll_opid e = (if lf_index lf1 = [] then 0 else ll_opid (last (lf_index lf1))) \<and>
             ll_level e =
               (if lf_index lf1 \<noteq> [] \<and> lf_format lf1 \<noteq> None
                then ll_level (last (lf_index lf1)) OR LEVEL_CONTINUED
                else LEVEL_UNKNOWN) \<and>
             is_continued e = (lf_index lf1 \<noteq> [] \<and> lf_format lf1 \<noteq> None)"
proof -
  define e where "e = last (lf_index (pp_no_match li lf1))"
  have i: "lf_index (pp_no_match li lf1) = lf_index lf1 @ [e]"
    unfolding e_def by (simp add: pp_no_match_def split: prod.splits)
  have "pp_no_match li lf1 = lf1\<lparr>lf_index := lf_index (pp_no_match li lf1)\<rparr>"
    by (simp add: pp_no_match_def split: prod.splits)
  with i have p: "pp_no_match li lf1 = lf1\<lparr>lf_index := lf_index lf1 @ [e]\<rparr>"
    by simp
  have f: "ll_offset e = fr_offset (li_file_range li)" "ll_sub_offset e = 0"
    "ll_valid_utf e = li_valid_utf li"
    "ll_time e = (if lf_index lf1 = [] then lf_index_time lf1 else ll_time (last (lf_index lf1)))"
    "ll_millis e = (if lf_index lf1 = [] then 0 else ll_millis (last (lf_index lf1)))"
    "ll_module_id e = (if lf_index lf1 = [] then 0 else ll_module_id (last (lf_index lf1)))"
    "ll_opid e = (if lf_index lf1 = [] then 0 else ll_opid (last (lf_index lf1)))"
    "ll_level e =
       (if lf_index lf1 \<noteq> [] \<and> lf_format lf1 \<noteq> None
        then ll_level (last (lf_index lf1)) OR LEVEL_CONTINUED
        else LEVEL_UNKNOWN)"
    unfolding e_def by (simp_all add: pp_no_match_def mk_logline_def Let_def)
  from f(8) have c: "is_continued e = (lf_index lf1 \<noteq> [] \<and> lf_format lf1 \<noteq> None)"
    by (cases "lf_index lf1 \<noteq> [] \<and> lf_format lf1 \<noteq> None")
       (simp_all add: is_continued_def continued_flag LEVEL_UNKNOWN_def del: not_None_eq)
  from assms have "process_prefix ex roots lf sbr li = Inr (False, pp_no_match li lf1, roots1)"
    by (simp add: process_prefix_def)
  with p f c show ?thesis by (intro exI [where x = e]) simp
qed

text \<open>
  The scenario: three indexed lines under a bound format, followed by a line that the
  format does not recognise. Its entry inherits the timestamp of the third line and
  carries the continued flag.
\<close>

theorem no_match_appends_entry_witness:
  "lf_index before_trace_line =
     [iso_entry 0 1672567200, iso_entry 22 1672567200, iso_entry 44 1672567202] \<and>
   (\<exists>prescan_time lf1 roots1 e.
      pp_scan test_externals [] before_trace_line ''  at main()'' (li_at 66 12) =
        Inr (SCAN_NO_MATCH, prescan_time, lf1, roots1) \<and>
      lf_index lf1 = lf_index before_trace_line \<and> lf_format lf1 \<noteq> None \<and>
      process_prefix test_externals [] before_trace_line ''  at main()'' (li_at 66 12) =
        Inr (False, lf1\<lparr>lf_index := lf_index lf1 @ [e]\<rparr>, roots1) \<and>
      ll_offset e = 66 \<and> ll_time e = 1672567202 \<and> ll_millis e = 0 \<and>
      ll_level e = 4 OR LEVEL_CONTINUED \<and> is_continued e)"
proof -
  let ?X = "before_trace_line"
  let ?sbr = "''  at main()''"
  let ?li = "li_at 66 12"
  let ?ix = "[iso_entry 0 1672567200, iso_entry 22 1672567200, iso_entry 44 1672567202]"
  have ix: "lf_index ?X = ?ix" by code_simp
  have "(case pp_scan test_externals [] ?X ?sbr ?li of
           Inr (found, pt, lf1, roots1) \<Rightarrow>
             Some (found, lf_index lf1, Option.is_none (lf_format lf1))
         | _ \<Rightarrow> None) = Some (SCAN_NO_MATCH, ?ix, False)"
    by code_simp
  then obtain pt lf1 roots1 where
    sc: "pp_scan test_externals [] ?X ?sbr ?li = Inr (SCAN_NO_MATCH, pt, lf1, roots1)"
    and i1: "lf_index lf1 = ?ix" and b: "lf_format lf1 \<noteq> None"
    by (auto simp add: Option.is_none_def split: sum.splits)
  from no_match_appends_entry [OF sc] obtain e where
    e: "process_prefix test_externals [] ?X ?sbr ?li =
          Inr (False, lf1\<lparr>lf_index := lf_index lf1 @ [e]\<rparr>, roots1)"
      "ll_offset e = fr_offset (li_file_range ?li)"
      "ll_time e = (if lf_index lf1 = [] then lf_index_time lf1 else ll_time (last (lf_index lf1)))"
      "ll_millis e = (if lf_index lf1 = [] then 0 else ll_millis (last (lf_index lf1)))"
      "ll_level e =
         (if lf_index lf1 \<noteq> [] \<and> lf_format lf1 \<noteq> None
          then ll_level (last (lf_index lf1)) OR LEVEL_CONTINUED
          else LEVEL_UNKNOWN)"
      "is_continued e = (lf_index lf1 \<noteq> [] \<and> lf_format lf1 \<noteq> None)"
    by blast
  from e(2-6) i1 b have f: "ll_offset e = 66" "ll_time e = 1672567202" "ll_millis e = 0"
    "ll_level e = 4 OR LEVEL_CONTINUED" "is_continued e"
    by (simp_all add: li_at_def iso_entry_def mk_logline_def del: not_None_eq)
  from sc i1 b e(1) f have "\<exists>prescan_time lf1 roots1 e.
      pp_scan test_externals [] before_trace_line ''  at main()'' (li_at 66 12) =
        Inr (SCAN_NO_MATCH, prescan_time, lf1, roots1) \<and>
      lf_index lf1 = lf_index before_trace_line \<and> lf_format lf1 \<noteq> None \<and>
      process_prefix test_externals [] before_trace_line ''  at main()'' (li_at 66 12) =
        Inr (False, lf1\<lparr>lf_index := lf_index lf1 @ [e]\<rparr>, roots1) \<and>
      ll_offset e = 66 \<and> ll_time e = 1672567202 \<and> ll_millis e = 0 \<and>
      ll_level e = 4 OR LEVEL_CONTINUED \<and> is_continued e"
    unfolding ix by (intro exI conjI)
  with ix show ?thesis by (intro conjI)
qed

text \<open>
  Claim C7 as stated fails for an unrecognised line that is not the first line of the
  file while no format is bound: in the backfill scenario the second line is such a
  line, and its entry has the unknown level without the continued flag.
\<close>

theorem unrecognised_line_not_continued:
  "results backfilled = [RR_NEW_ORDER] \<and>
   map ll_offset (lf_index (file_of backfilled)) = [0, 8, 17] \<and>
   map ll_level (lf_index (file_of backfilled)) = [LEVEL_UNKNOWN, LEVEL_UNKNOWN, 4] \<and>
   map is_continued (lf_index (file_of backfilled)) = [False, False, False] \<and>
   parse_iso ''garbage2'' = None"
  by code_simp

section \<open>The length of a line\<close>

text \<open>The loop of \<open>line_length\<close> stops at the boundary the specification describes.\<close>

lemma next_line_from_find:
  assumes "n \<le> length idx"
  shows "(find (\<lambda>e. ll_offset e \<noteq> off \<and> \<not> (inc \<and> is_continued e)) (drop n idx) = None \<and>
          next_line_from idx off inc n = length idx) \<or>
         (next_line_from idx off inc n < length idx \<and>
          find (\<lambda>e. ll_offset e \<noteq> off \<and> \<not> (inc \<and> is_continued e)) (drop n idx) =
            Some (idx ! next_line_from idx off inc n))"
  using assms
proof (induction idx off inc n rule: next_line_from.induct)
  case (1 idx off inc n)
  define P where "P = (\<lambda>e. ll_offset e \<noteq> off \<and> \<not> (inc \<and> is_continued e))"
  show ?case unfolding P_def [symmetric]
  proof (cases "n < length idx")
    case False
    with "1.prems" have "n = length idx" by simp
    then show "(find P (drop n idx) = None \<and> next_line_from idx off inc n = length idx) \<or>
         (next_line_from idx off inc n < length idx \<and>
          find P (drop n idx) = Some (idx ! next_line_from idx off inc n))"
      by (simp add: next_line_from.simps)
  next
    case True
    then have d: "drop n idx = idx ! n # drop (Suc n) idx"
      by (simp add: Cons_nth_drop_Suc)
    show "(find P (drop n idx) = None \<and> next_line_from idx off inc n = length idx) \<or>
         (next_line_from idx off inc n < length idx \<and>
          find P (drop n idx) = Some (idx ! next_line_from idx off inc n))"
    proof (cases "P (idx ! n)")
      case stop: True
      with True have "next_line_from idx off inc n = n"
        by (subst next_line_from.simps) (auto simp add: P_def)
      with True stop show ?thesis by (simp add: d)
    next
      case skip: False
      then have c: "off = ll_offset (idx ! n) \<or> (inc \<and> is_continued (idx ! n))"
        by (auto simp add: P_def)
      with True have e: "next_line_from idx off inc n = next_line_from idx off inc (Suc n)"
        by (subst next_line_from.simps) simp
      from True c have "(find P (drop (Suc n) idx) = None \<and>
            next_line_from idx off inc (Suc n) = length idx) \<or>
         (next_line_from idx off inc (Suc n) < length idx \<and>
          find P (drop (Suc n) idx) = Some (idx ! next_line_from idx off inc (Suc n)))"
        unfolding P_def by (intro "1.IH") auto
      with skip show ?thesis by (simp add: d e)
    qed
  qed
qed

lemma line_length_uncached_spec:
  assumes "ll < length (lf_index lf)"
  shows "fst (line_length_uncached lf ll include_continues) = spec_line_length lf ll include_continues"
proof -
  from assms have "Suc ll \<le> length (lf_index lf)" by simp
  from next_line_from_find [OF this, of "ll_offset (lf_index lf ! ll)" include_continues]
  show ?thesis
    unfolding line_length_uncached_def line_end_boundary_def spec_line_length_def Let_def
    by (elim disjE conjE) simp_all
qed

text \<open>
  Claim C8, as amended. For a position inside the index, \<open>line_length\<close> returns the
  cached length when continuation rows are not requested and the one-entry cache holds
  the queried start offset. Otherwise it scans forward to the next entry whose start
  offset differs (skipping continuation rows too when they are to be included) and
  returns the byte distance from the queried start offset to that entry's start offset
  less one terminator byte; when there is no such entry it returns the indexed extent
  minus the start offset, less one terminator byte unless the tail is partial or no
  byte is left. The differences are taken as \<^verbatim>\<open>size_t\<close> values.
\<close>

theorem line_length_value:
  assumes "ll < length (lf_index lf)"
  shows "map_sum id fst (line_length lf ll include_continues) =
           Inr (case (if include_continues then None else lf_next_line_cache lf) of
                  Some (k, v) \<Rightarrow>
                    if k = ll_offset (lf_index lf ! ll) then v
                    else spec_line_length lf ll include_continues
                | None \<Rightarrow> spec_line_length lf ll include_continues)"
  using assms unfolding line_length_def
  by (cases include_continues; cases "lf_next_line_cache lf")
     (auto simp add: line_length_uncached_spec)

text \<open>
  The scenario of the partial tail: a file that ends in a line without a line feed is
  indexed as one entry whose length is all of the remaining 32 bytes.
\<close>

theorem line_length_value_witness:
  "length partial_file = 32 \<and>
   map ll_offset (lf_index indexed_partial) = [0] \<and>
   lf_partial_line indexed_partial \<and>
   map_sum id fst (line_length indexed_partial 0 False) = Inr 32 \<and>
   map_sum id fst (line_length indexed_partial 0 True) = Inr 32"
proof -
  have a: "length partial_file = 32" "map ll_offset (lf_index indexed_partial) = [0]"
    "lf_partial_line indexed_partial" "(0::nat) < length (lf_index indexed_partial)"
    "lf_next_line_cache indexed_partial = None"
    "spec_line_length indexed_partial 0 False = 32"
    "spec_line_length indexed_partial 0 True = 32"
    by code_simp+
  from a line_length_value [OF a(4), of False] line_length_value [OF a(4), of True]
  show ?thesis by simp
qed

text \<open>
  Claim C8 as stated fails on a line that is followed by another: in the file of ten
  lines of ten bytes, the entry after the first starts 10 bytes further, and the
  length returned for the first entry is 9.
\<close>

theorem line_length_not_distance:
  "map ll_offset (lf_index (indexed100 True)) = [0, 10, 20, 30, 40, 50, 60, 70, 80, 90] \<and>
   lf_next_line_cache (indexed100 True) = None \<and>
   map_option ll_offset (line_end_boundary (lf_index (indexed100 True)) 0 False) = Some 10 \<and>
   map_sum id fst (line_length (indexed100 True) 0 False) = Inr 9"
  by code_simp

section \<open>Reading a full message\<close>

text \<open>
  Claim C9. \<open>read_full_message\<close> requires the position to start a logical-line group:
  at a position with a non-zero sub-offset the contract check fails. At a position
  with sub-offset 0, when the read of the byte range fails (an error result or an
  exception of the line source), the call returns normally, with the caller's buffer
  and the file state as they were.
\<close>

theorem read_full_message_contract:
  assumes "ll < length (lf_index lf)"
    and "line_length lf ll True = Inr (line_len, lf1)"
  shows "(ll_sub_offset (lf_index lf ! ll) \<noteq> 0 \<longrightarrow>
            read_full_message lf ll msg_out = Inl Require_failed) \<and>
         (ll_sub_offset (lf_index lf ! ll) = 0 \<and>
          (\<forall>sbr. lb_read_range (lf_line_buffer lf)
                   \<lparr>fr_offset = ll_offset (lf_index lf ! ll),
                    fr_size = to_ssize_t line_len\<rparr> \<noteq> Ok sbr) \<longrightarrow>
            read_full_message lf ll msg_out = Inr (msg_out, lf))"
proof -
  have "snd (line_length_uncached lf ll True) = lf"
    by (simp add: line_length_uncached_def Let_def)
  moreover have "line_length lf ll True = Inr (line_length_uncached lf ll True)"
    using assms(1) by (simp add: line_length_def)
  ultimately have "lf1 = lf"
    using assms(2) by (simp add: prod_eq_iff)
  then show ?thesis
    using assms unfolding read_full_message_def
    by (auto split: io_result.splits)
qed

text \<open>
  The two cases: a position with sub-offset 1, and the last line of a file that has
  been truncated since it was indexed, so that the read of its bytes fails.
\<close>

theorem read_full_message_contract_witness:
  "ll_sub_offset (lf_index sub_row_file ! 1) = 1 \<and>
   read_full_message sub_row_file 1 ''old'' = Inl Require_failed \<and>
   ll_sub_offset (lf_index truncated_file ! 9) = 0 \<and>
   map_sum id fst (line_length truncated_file 9 True) = Inr 9 \<and>
   lb_read_range (lf_line_buffer truncated_file) \<lparr>fr_offset = 90, fr_size = 9\<rparr> = Err ''short read'' \<and>
   read_full_message truncated_file 9 ''old'' = Inr (''old'', truncated_file)"
proof -
  have a: "(1::nat) < length (lf_index sub_row_file)" "ll_sub_offset (lf_index sub_row_file ! 1) = 1"
    by code_simp+
  then obtain n lf1 where l1: "line_length sub_row_file 1 True = Inr (n, lf1)"
    by (cases "line_length_uncached sub_row_file 1 True") (simp add: line_length_def)
  have b: "(9::nat) < length (lf_index truncated_file)"
    "ll_sub_offset (lf_index truncated_file ! 9) = 0"
    "ll_offset (lf_index truncated_file ! 9) = 90"
    "map_sum id fst (line_length truncated_file 9 True) = Inr 9"
    "lb_read_range (lf_line_buffer truncated_file) \<lparr>fr_offset = 90, fr_size = 9\<rparr> = Err ''short read''"
    "to_ssize_t 9 = 9"
    by code_simp+
  from b(1) obtain m lf2 where l2: "line_length truncated_file 9 True = Inr (m, lf2)"
    by (cases "line_length_uncached truncated_file 9 True") (simp add: line_length_def)
  with b(4) have m: "m = 9" by simp
  from read_full_message_contract [OF a(1) l1, of "''old''"]
    read_full_message_contract [OF b(1) l2, of "''old''"] a b m
  show ?thesis by simp
qed

section \<open>A change of the first entry's timestamp\<close>




end
